theory Spec2Isabelle
  imports Complex_Main
begin

section \<open>JavaScript numbers\<close>

text \<open>
  A JavaScript Number is an IEEE 754 binary64 value. The finite ones are the reals on the
  binary64 grid, kept here as exact reals; every arithmetic operation computes the exact
  result and rounds it to the grid (round to nearest, ties to even, gradual underflow,
  overflow to an infinity). The sign of zero is not modelled: all zeros are \<open>+0\<close>.
  \<open>toFixed\<close> does not look at the sign of zero, and in \<open>calculateTradeLevels\<close> a zero
  divisor only arises as \<open>x - x\<close> times a positive quantity, which is \<open>+0\<close>.
\<close>

datatype jsnum = NaN | PInf | NInf | Fin real

fun ilog2 :: "nat \<Rightarrow> nat" where
  "ilog2 n = (if n < 2 then 0 else Suc (ilog2 (n div 2)))"

declare ilog2.simps [simp del]

definition floor_log2 :: "real \<Rightarrow> int" where
  \<comment> \<open>for \<open>a > 0\<close>: the \<open>e\<close> with \<open>2^e \<le> a < 2^(e+1)\<close>\<close>
  "floor_log2 a =
     (if 1 \<le> a then int (ilog2 (nat \<lfloor>a\<rfloor>))
      else (let c = nat \<lceil>1 / a\<rceil> in if c \<le> 1 then 0 else - int (Suc (ilog2 (c - 1)))))"

definition pow2 :: "int \<Rightarrow> real" where
  "pow2 e = (if 0 \<le> e then 2 ^ nat e else 1 / 2 ^ nat (- e))"

definition round_half_even :: "real \<Rightarrow> int" where
  "round_half_even r =
     (let f = \<lfloor>r\<rfloor>; d = r - of_int f
      in if d < 1 / 2 then f else if 1 / 2 < d then f + 1 else if even f then f else f + 1)"

definition MAX_VALUE :: real where
  \<comment> \<open>\<open>Number.MAX_VALUE\<close>, the largest finite binary64 value\<close>
  "MAX_VALUE = (2 ^ 53 - 1) * 2 ^ 971"

definition round64 :: "real \<Rightarrow> jsnum" where
  \<comment> \<open>53 significant bits; below \<open>2^-1022\<close> the spacing stays \<open>2^-1074\<close>\<close>
  "round64 x =
     (if x = 0 then Fin 0
      else
        let a = \<bar>x\<bar>;
            e = max (floor_log2 a) (- 1022);
            ulp = pow2 (e - 52);
            r = of_int (round_half_even (a / ulp)) * ulp
        in if MAX_VALUE < r then (if 0 < x then PInf else NInf)
           else Fin (if 0 < x then r else - r))"

definition jneg :: "jsnum \<Rightarrow> jsnum" where
  "jneg x = (case x of NaN \<Rightarrow> NaN | PInf \<Rightarrow> NInf | NInf \<Rightarrow> PInf | Fin a \<Rightarrow> Fin (- a))"

fun jadd :: "jsnum \<Rightarrow> jsnum \<Rightarrow> jsnum" where
  "jadd NaN _ = NaN"
| "jadd _ NaN = NaN"
| "jadd PInf NInf = NaN"
| "jadd NInf PInf = NaN"
| "jadd PInf _ = PInf"
| "jadd _ PInf = PInf"
| "jadd NInf _ = NInf"
| "jadd _ NInf = NInf"
| "jadd (Fin a) (Fin b) = round64 (a + b)"

definition jsub :: "jsnum \<Rightarrow> jsnum \<Rightarrow> jsnum" where
  "jsub x y = jadd x (jneg y)"

definition jsign_pos :: "jsnum \<Rightarrow> bool" where
  \<comment> \<open>the sign bit is clear; zero counts as \<open>+0\<close>\<close>
  "jsign_pos x = (case x of PInf \<Rightarrow> True | Fin a \<Rightarrow> 0 \<le> a | _ \<Rightarrow> False)"

definition jinf :: "bool \<Rightarrow> jsnum" where
  "jinf pos = (if pos then PInf else NInf)"

definition is_inf :: "jsnum \<Rightarrow> bool" where
  "is_inf x = (x = PInf \<or> x = NInf)"

definition jmul :: "jsnum \<Rightarrow> jsnum \<Rightarrow> jsnum" where
  "jmul x y =
     (if x = NaN \<or> y = NaN then NaN
      else if is_inf x \<or> is_inf y then
        (if x = Fin 0 \<or> y = Fin 0 then NaN else jinf (jsign_pos x = jsign_pos y))
      else (case (x, y) of (Fin a, Fin b) \<Rightarrow> round64 (a * b) | _ \<Rightarrow> NaN))"

definition jdiv :: "jsnum \<Rightarrow> jsnum \<Rightarrow> jsnum" where
  "jdiv x y =
     (if x = NaN \<or> y = NaN then NaN
      else if is_inf x then (if is_inf y then NaN else jinf (jsign_pos x = jsign_pos y))
      else if is_inf y then Fin 0
      else (case (x, y) of
              (Fin a, Fin b) \<Rightarrow>
                if b = 0 then (if a = 0 then NaN else jinf (0 < a)) else round64 (a / b)
            | _ \<Rightarrow> NaN))"

definition falsy :: "jsnum \<Rightarrow> bool" where
  \<comment> \<open>\<open>!x\<close> on a Number\<close>
  "falsy x = (x = NaN \<or> x = Fin 0)"

definition isNaN :: "jsnum \<Rightarrow> bool" where
  "isNaN x = (x = NaN)"

fun jless :: "jsnum \<Rightarrow> jsnum \<Rightarrow> bool" where
  "jless NaN _ = False"
| "jless _ NaN = False"
| "jless PInf _ = False"
| "jless _ PInf = True"
| "jless _ NInf = False"
| "jless NInf _ = True"
| "jless (Fin a) (Fin b) = (a < b)"

definition jle :: "jsnum \<Rightarrow> jsnum \<Rightarrow> bool" where
  "jle x y = (x \<noteq> NaN \<and> y \<noteq> NaN \<and> (x = y \<or> jless x y))"

subsection \<open>Decimal rendering\<close>

definition digit_char :: "nat \<Rightarrow> char" where
  "digit_char d = ''0123456789'' ! (d mod 10)"

fun showNat :: "nat \<Rightarrow> string" where
  "showNat n = (if n < 10 then [digit_char n] else showNat (n div 10) @ [digit_char (n mod 10)])"

declare showNat.simps [simp del]

definition showInt :: "int \<Rightarrow> string" where
  "showInt i = (if i < 0 then ''-'' @ showNat (nat (- i)) else showNat (nat i))"

definition fixedDigits :: "nat \<Rightarrow> real \<Rightarrow> string" where
  \<comment> \<open>for \<open>0 \<le> a < 10^21\<close>: the integer \<open>n\<close> with \<open>n / 10^f\<close> nearest to \<open>a\<close> (the larger
      of two), in decimal, padded to \<open>f + 1\<close> digits, with the point before the last \<open>f\<close>\<close>
  "fixedDigits f a =
     (let m = showNat (nat \<lfloor>a * 10 ^ f + 1 / 2\<rfloor>);
          z = (if f \<noteq> 0 \<and> length m \<le> f then replicate (f + 1 - length m) (CHR ''0'') @ m
               else m);
          k = length z
      in if f \<noteq> 0 then take (k - f) z @ ''.'' @ drop (k - f) z else z)"

fun toFixed :: "nat \<Rightarrow> jsnum \<Rightarrow> string option" where
  \<comment> \<open>\<open>Number.prototype.toFixed\<close>. From \<open>10^21\<close> on JavaScript prints the number in
      exponent notation (\<open>Number::toString\<close>), which is not modelled: the result is \<open>None\<close>.\<close>
  "toFixed f NaN = Some ''NaN''"
| "toFixed f PInf = Some ''Infinity''"
| "toFixed f NInf = Some ''-Infinity''"
| "toFixed f (Fin v) =
     (if 10 ^ 21 \<le> \<bar>v\<bar> then None
      else Some ((if v < 0 then ''-'' else '''') @ fixedDigits f \<bar>v\<bar>))"

section \<open>Trade math\<close>

record calc_errors =
  err_entry :: string
  err_target :: string
  err_quantity :: string
  err_tp :: string
  err_sl :: string

record levels =
  tpPrice :: jsnum
  slPrice :: jsnum
  investment :: jsnum
  maxProfit :: jsnum
  maxLoss :: jsnum
  perShareTP :: jsnum
  perShareSL :: jsnum
  ratio :: "string option"

text \<open>The text contents written by \<open>calculateTradeLevels\<close>, one field per element id.\<close>

record display =
  resultEntry :: "string option"
  resultInvestment :: "string option"
  resultTP :: "string option"
  resultSL :: "string option"
  maxProfitText :: "string option"
  maxLossText :: "string option"
  perShareTPDisplay :: "string option"
  perShareSLDisplay :: "string option"
  riskReward :: "string option"
  resultEntryMYR :: "string option"
  resultInvestmentMYR :: "string option"
  resultTPMYR :: "string option"
  resultSLMYR :: "string option"
  maxProfitMYR :: "string option"
  maxLossMYR :: "string option"

definition tradeLevels :: "jsnum \<Rightarrow> jsnum \<Rightarrow> jsnum \<Rightarrow> jsnum \<Rightarrow> levels" where
  \<comment> \<open>the local constants of \<open>calculateTradeLevels\<close> after validation\<close>
  "tradeLevels basePrice quantity tpPercent slPercent =
     (let tp = jmul basePrice (jadd (Fin 1) (jdiv tpPercent (Fin 100)));
          sl = jmul basePrice (jsub (Fin 1) (jdiv slPercent (Fin 100)));
          mp = jmul (jsub tp basePrice) quantity;
          ml = jmul (jsub basePrice sl) quantity
      in \<lparr> tpPrice = tp, slPrice = sl,
           investment = jmul basePrice quantity,
           maxProfit = mp, maxLoss = ml,
           perShareTP = jsub tp basePrice,
           perShareSL = jsub basePrice sl,
           ratio = toFixed 1 (jdiv mp ml) \<rparr>)"

definition prefixed :: "string \<Rightarrow> string option \<Rightarrow> string option" where
  "prefixed p t = map_option (\<lambda>s. p @ s) t"

definition validate ::
  "string \<Rightarrow> jsnum \<Rightarrow> jsnum \<Rightarrow> jsnum \<Rightarrow> jsnum \<Rightarrow> jsnum \<Rightarrow> calc_errors" where
  "validate mode currentPrice targetPrice quantity tpPercent slPercent =
     \<lparr> err_entry = (if falsy currentPrice \<or> jle currentPrice (Fin 0)
                     then ''Current price must be greater than 0'' else ''''),
       err_target = (if mode = ''target'' \<and> (falsy targetPrice \<or> jle targetPrice (Fin 0))
                      then ''Target price must be greater than 0'' else ''''),
       err_quantity = (if falsy quantity \<or> jle quantity (Fin 0)
                        then ''Quantity must be greater than 0'' else ''''),
       err_tp = (if isNaN tpPercent \<or> jless tpPercent (Fin 0)
                  then ''TP must be 0 or greater'' else ''''),
       err_sl = (if isNaN slPercent \<or> jless slPercent (Fin 0)
                  then ''SL must be 0 or greater'' else '''') \<rparr>"

definition no_errors :: calc_errors where
  "no_errors = \<lparr> err_entry = '''', err_target = '''', err_quantity = '''', err_tp = '''', err_sl = '''' \<rparr>"

definition calculateTradeLevels ::
  "string \<Rightarrow> jsnum \<Rightarrow> jsnum \<Rightarrow> jsnum \<Rightarrow> jsnum \<Rightarrow> jsnum \<Rightarrow> jsnum \<Rightarrow> calc_errors + display" where
  \<comment> \<open>arguments: \<open>calculationMode\<close>; the results of \<open>parseFloat\<close>/\<open>parseInt\<close> on the
      five inputs (\<open>NaN\<close> for an empty or unreadable field); the rate \<open>USD_TO_MYR\<close>.
      \<open>Inl\<close>: validation failed, the messages shown; \<open>Inr\<close>: the results written.\<close>
  "calculateTradeLevels mode currentPrice targetPrice quantity tpPercent slPercent usd_to_myr =
     (let basePrice = (if mode = ''target'' then targetPrice else currentPrice);
          errors = validate mode currentPrice targetPrice quantity tpPercent slPercent
      in if errors \<noteq> no_errors then Inl errors
         else
           let l = tradeLevels basePrice quantity tpPercent slPercent
           in Inr \<lparr> resultEntry = prefixed ''$'' (toFixed 2 basePrice),
                    resultInvestment = prefixed ''$'' (toFixed 2 (investment l)),
                    resultTP = prefixed ''$'' (toFixed 2 (tpPrice l)),
                    resultSL = prefixed ''$'' (toFixed 2 (slPrice l)),
                    maxProfitText = prefixed ''+$'' (toFixed 2 (maxProfit l)),
                    maxLossText = prefixed ''-$'' (toFixed 2 (maxLoss l)),
                    perShareTPDisplay = prefixed ''+$'' (toFixed 2 (perShareTP l)),
                    perShareSLDisplay = prefixed ''-$'' (toFixed 2 (perShareSL l)),
                    riskReward = prefixed ''1:'' (ratio l),
                    resultEntryMYR = prefixed ''RM '' (toFixed 2 (jmul basePrice usd_to_myr)),
                    resultInvestmentMYR = prefixed ''RM '' (toFixed 2 (jmul (investment l) usd_to_myr)),
                    resultTPMYR = prefixed ''RM '' (toFixed 2 (jmul (tpPrice l) usd_to_myr)),
                    resultSLMYR = prefixed ''RM '' (toFixed 2 (jmul (slPrice l) usd_to_myr)),
                    maxProfitMYR = prefixed ''+RM '' (toFixed 2 (jmul (maxProfit l) usd_to_myr)),
                    maxLossMYR = prefixed ''-RM '' (toFixed 2 (jmul (maxLoss l) usd_to_myr)) \<rparr>)"

section \<open>Strings and arrays\<close>

text \<open>
  Strings are byte strings: \<open>toUpperCase\<close> and \<open>trim\<close> are modelled on ASCII (letters
  \<open>a\<close> to \<open>z\<close>; blank, tab, line feed, vertical tab, form feed, carriage return).
\<close>

definition upper_char :: "char \<Rightarrow> char" where
  "upper_char c =
     (case map_of (zip ''abcdefghijklmnopqrstuvwxyz'' ''ABCDEFGHIJKLMNOPQRSTUVWXYZ'') c of
        Some u \<Rightarrow> u | None \<Rightarrow> c)"

definition toUpperCase :: "string \<Rightarrow> string" where
  "toUpperCase s = map upper_char s"

definition is_space :: "char \<Rightarrow> bool" where
  "is_space c = (c \<in> set [CHR '' '', CHR 0x09, CHR 0x0A, CHR 0x0B, CHR 0x0C, CHR 0x0D])"

definition trim :: "string \<Rightarrow> string" where
  "trim s = rev (dropWhile is_space (rev (dropWhile is_space s)))"

fun findIndex :: "('a \<Rightarrow> bool) \<Rightarrow> 'a list \<Rightarrow> int" where
  "findIndex P [] = - 1"
| "findIndex P (x # xs) =
     (if P x then 0 else (let i = findIndex P xs in if i = - 1 then - 1 else i + 1))"

definition splice_start :: "int \<Rightarrow> nat \<Rightarrow> nat" where
  \<comment> \<open>the start index \<open>Array.prototype.splice\<close> uses: a negative start counts from the end\<close>
  "splice_start start len =
     (if start < 0 then nat (max (int len + start) 0) else min (nat start) len)"

definition splice_delete1 :: "'a list \<Rightarrow> int \<Rightarrow> 'a list" where
  \<comment> \<open>\<open>xs.splice(start, 1)\<close>: the array afterwards\<close>
  "splice_delete1 xs start =
     (let k = splice_start start (length xs) in take k xs @ drop (Suc k) xs)"

definition splice_insert :: "'a list \<Rightarrow> int \<Rightarrow> 'a \<Rightarrow> 'a list" where
  \<comment> \<open>\<open>xs.splice(start, 0, x)\<close>: the array afterwards\<close>
  "splice_insert xs start x =
     (let k = splice_start start (length xs) in take k xs @ [x] @ drop k xs)"

fun update_first :: "('a \<Rightarrow> bool) \<Rightarrow> ('a \<Rightarrow> 'a) \<Rightarrow> 'a list \<Rightarrow> 'a list" where
  \<comment> \<open>assignments to the fields of the object \<open>xs.find(P)\<close> returns\<close>
  "update_first P f [] = []"
| "update_first P f (x # xs) = (if P x then f x # xs else x # update_first P f xs)"

section \<open>Quote cache\<close>

record quote =
  symbol :: string
  price :: jsnum
  percentChange :: "jsnum option"
  previousClose :: "jsnum option"
  openPrice :: "jsnum option"
  dayHigh :: "jsnum option"
  dayLow :: "jsnum option"
  volume :: "jsnum option"
  week52High :: "jsnum option"
  week52Low :: "jsnum option"
  timestamp :: int

section \<open>Tab store, form and timers\<close>

record tab =
  tab_id :: string
  tab_name :: string
  stockSymbol :: string
  entryPrice :: string
  targetPrice :: string
  quantity :: string
  tpPercent :: string
  slPercent :: string
  tab_autoPriceEnabled :: bool
  tab_calculationMode :: string
  createdAt :: int

text \<open>
  \<open>localStorage\<close>, by key: \<open>stockTabs\<close> (the serialised array), \<open>activeTabId\<close>, and the
  entries \<open>stockPrice_<SYMBOL>\<close>, kept as a map from \<open><SYMBOL>\<close>. \<open>JSON.stringify\<close> and
  \<open>JSON.parse\<close> are taken to return the value stored.
\<close>

record storage =
  stockTabs :: "tab list option"
  stored_activeTabId :: "string option"
  stockPrice :: "string \<rightharpoonup> quote"

text \<open>The values of the six input elements.\<close>

record form =
  in_stockSymbol :: string
  in_entryPrice :: string
  in_targetPrice :: string
  in_quantity :: string
  in_tpPercent :: string
  in_slPercent :: string

text \<open>
  What a pending timer runs: the debounced save (\<open>setTimeout\<close>, 300 ms), the reset of the
  loading flag (\<open>setTimeout\<close>, 100 ms), or the poll (\<open>setInterval\<close>, every minute).
\<close>

datatype timer_task = SaveTabStateLater | ClearLoadingFlag | AutoFetchTick

datatype js_error = TypeError

record app =
  tabs :: "tab list"
  activeTabId :: "string option"
  autoPriceEnabled :: bool
  calculationMode :: string
  isLoadingTabState :: bool
  saveDebounceTimer :: "nat option"
  autoFetchIntervalId :: "nat option"
  inputs :: form
  localStorage :: storage
  timers :: "(nat \<times> timer_task) list"
  lastTimerId :: nat
  alerts :: "string list"
  fetchLog :: "string list"

definition MAX_TABS :: nat where
  "MAX_TABS = 20"

definition PRICE_CACHE_DURATION :: int where
  "PRICE_CACHE_DURATION = 1 * 60 * 1000"

definition truthy_str :: "string option \<Rightarrow> bool" where
  \<comment> \<open>\<open>if (activeTabId)\<close>: neither \<open>null\<close> nor the empty string\<close>
  "truthy_str v = (case v of None \<Rightarrow> False | Some x \<Rightarrow> x \<noteq> [])"

definition truthy_id :: "nat option \<Rightarrow> bool" where
  \<comment> \<open>\<open>if (autoFetchIntervalId)\<close>: neither \<open>null\<close> nor 0\<close>
  "truthy_id v = (case v of None \<Rightarrow> False | Some h \<Rightarrow> h \<noteq> 0)"

subsection \<open>Timers\<close>

text \<open>Timer ids are positive and never reused; timeouts and intervals share them.\<close>

definition setTimer :: "timer_task \<Rightarrow> app \<Rightarrow> nat \<times> app" where
  \<comment> \<open>\<open>setTimeout\<close> and \<open>setInterval\<close>: the id returned and the state\<close>
  "setTimer task s =
     (let h = Suc (lastTimerId s)
      in (h, s\<lparr> timers := timers s @ [(h, task)], lastTimerId := h \<rparr>))"

definition clearTimer :: "nat \<Rightarrow> app \<Rightarrow> app" where
  \<comment> \<open>\<open>clearTimeout\<close> and \<open>clearInterval\<close>\<close>
  "clearTimer h s = s\<lparr> timers := filter (\<lambda>p. fst p \<noteq> h) (timers s) \<rparr>"

definition liveIntervals :: "app \<Rightarrow> nat list" where
  \<comment> \<open>the ids of the poll intervals that will still fire\<close>
  "liveIntervals s = map fst (filter (\<lambda>p. snd p = AutoFetchTick) (timers s))"

subsection \<open>Quote cache operations\<close>

definition getCachedPrice :: "int \<Rightarrow> string \<Rightarrow> storage \<Rightarrow> quote option \<times> storage" where
  \<comment> \<open>first argument: \<open>Date.now()\<close>; result: the value returned (\<open>None\<close> for \<open>null\<close>) and
      the storage afterwards\<close>
  "getCachedPrice now symb st =
     (case stockPrice st symb of
        Some data \<Rightarrow>
          if now - timestamp data < PRICE_CACHE_DURATION then (Some data, st)
          else (None, st\<lparr> stockPrice := (stockPrice st)(symb := None) \<rparr>)
      | None \<Rightarrow> (None, st))"

definition cachePrice ::
  "int \<Rightarrow> string \<Rightarrow> jsnum \<Rightarrow> jsnum option \<Rightarrow> jsnum option \<Rightarrow> jsnum option \<Rightarrow> jsnum option \<Rightarrow>
   jsnum option \<Rightarrow> jsnum option \<Rightarrow> jsnum option \<Rightarrow> jsnum option \<Rightarrow> storage \<Rightarrow> storage" where
  \<comment> \<open>first argument: \<open>Date.now()\<close>\<close>
  "cachePrice now symb p pc prev opn hi lo vol w52h w52l st =
     st\<lparr> stockPrice := (stockPrice st)(symb \<mapsto>
          \<lparr> symbol = symb, price = p, percentChange = pc, previousClose = prev, openPrice = opn,
            dayHigh = hi, dayLow = lo, volume = vol, week52High = w52h, week52Low = w52l,
            timestamp = now \<rparr>) \<rparr>"

subsection \<open>Form sync\<close>

definition saveTabsToStorage :: "app \<Rightarrow> app" where
  \<comment> \<open>\<open>setItem\<close> stores the string of its argument: \<open>null\<close> is stored as \<open>"null"\<close>\<close>
  "saveTabsToStorage s =
     s\<lparr> localStorage := (localStorage s)\<lparr>
          stockTabs := Some (tabs s),
          stored_activeTabId := Some (case activeTabId s of None \<Rightarrow> ''null'' | Some i \<Rightarrow> i) \<rparr> \<rparr>"

definition is_active :: "app \<Rightarrow> tab \<Rightarrow> bool" where
  \<comment> \<open>\<open>t.id === activeTabId\<close>\<close>
  "is_active s t = (activeTabId s = Some (tab_id t))"

definition saveCurrentTabState :: "app \<Rightarrow> app" where
  "saveCurrentTabState s =
     (if isLoadingTabState s then s
      else case find (is_active s) (tabs s) of
        None \<Rightarrow> s
      | Some _ \<Rightarrow>
          saveTabsToStorage (s\<lparr> tabs := update_first (is_active s)
            (\<lambda>t. t\<lparr> stockSymbol := trim (in_stockSymbol (inputs s)),
                     entryPrice := in_entryPrice (inputs s),
                     targetPrice := in_targetPrice (inputs s),
                     quantity := in_quantity (inputs s),
                     tpPercent := in_tpPercent (inputs s),
                     slPercent := in_slPercent (inputs s),
                     tab_autoPriceEnabled := autoPriceEnabled s,
                     tab_calculationMode := calculationMode s \<rparr>) (tabs s) \<rparr>))"

definition debouncedSaveTabState :: "app \<Rightarrow> app" where
  "debouncedSaveTabState s =
     (if isLoadingTabState s then s
      else
        let s1 = (if truthy_id (saveDebounceTimer s) then clearTimer (the (saveDebounceTimer s)) s
                  else s);
            (h, s2) = setTimer SaveTabStateLater s1
        in s2\<lparr> saveDebounceTimer := Some h \<rparr>)"

definition loadTabState :: "string \<Rightarrow> app \<Rightarrow> app" where
  \<comment> \<open>The recomputation of the results panel (\<open>autoCalculate\<close>) writes display elements
      only and is left out.\<close>
  "loadTabState tabId s =
     (case find (\<lambda>t. tab_id t = tabId) (tabs s) of
        None \<Rightarrow> s
      | Some t \<Rightarrow>
          snd (setTimer ClearLoadingFlag
            (s\<lparr> isLoadingTabState := True,
                inputs := \<lparr> in_stockSymbol = stockSymbol t, in_entryPrice = entryPrice t,
                            in_targetPrice = targetPrice t, in_quantity = quantity t,
                            in_tpPercent = tpPercent t, in_slPercent = slPercent t \<rparr>,
                autoPriceEnabled := tab_autoPriceEnabled t,
                calculationMode := (if tab_calculationMode t \<noteq> [] then tab_calculationMode t
                                    else calculationMode s) \<rparr>)))"

definition defaultForm :: form where
  \<comment> \<open>Modelled from the spec: the markup of \<open>tradeForm\<close> is not among the sources; a new
      tab clears the form to its defaults, and absent fields render as empty.\<close>
  "defaultForm = \<lparr> in_stockSymbol = '''', in_entryPrice = '''', in_targetPrice = '''',
                   in_quantity = '''', in_tpPercent = '''', in_slPercent = '''' \<rparr>"

definition clearCalculatorForm :: "app \<Rightarrow> app" where
  "clearCalculatorForm s = s\<lparr> inputs := defaultForm, autoPriceEnabled := False \<rparr>"

subsection \<open>Active-tab poller\<close>

definition hasAutoPrice :: "app \<Rightarrow> bool" where
  \<comment> \<open>\<open>activeTab && activeTab.autoPriceEnabled && activeTab.stockSymbol\<close>, as a condition\<close>
  "hasAutoPrice s =
     (case find (is_active s) (tabs s) of
        None \<Rightarrow> False
      | Some t \<Rightarrow> tab_autoPriceEnabled t \<and> stockSymbol t \<noteq> [])"

definition fetchPriceForActiveTab :: "app \<Rightarrow> app" where
  \<comment> \<open>The function up to its first \<open>await\<close>: the request it sends is added to \<open>fetchLog\<close>.
      What it does with the response is a later event.\<close>
  "fetchPriceForActiveTab s =
     (case find (is_active s) (tabs s) of
        None \<Rightarrow> s
      | Some t \<Rightarrow>
          if \<not> tab_autoPriceEnabled t \<or> stockSymbol t = [] then s
          else
            let symb = toUpperCase (trim (stockSymbol t))
            in if symb = [] then s else s\<lparr> fetchLog := fetchLog s @ [symb] \<rparr>)"

definition startAutoFetchInterval :: "app \<Rightarrow> app" where
  "startAutoFetchInterval s =
     (let s1 = (if truthy_id (autoFetchIntervalId s) then clearTimer (the (autoFetchIntervalId s)) s
                else s)
      in if hasAutoPrice s1 then
           (let (h, s2) = setTimer AutoFetchTick (fetchPriceForActiveTab s1)
            in s2\<lparr> autoFetchIntervalId := Some h \<rparr>)
         else s1)"

definition stopAutoFetchInterval :: "app \<Rightarrow> app" where
  "stopAutoFetchInterval s =
     (if truthy_id (autoFetchIntervalId s)
      then (clearTimer (the (autoFetchIntervalId s)) s)\<lparr> autoFetchIntervalId := None \<rparr>
      else s)"

definition checkAutoFetchInterval :: "app \<Rightarrow> app" where
  "checkAutoFetchInterval s =
     (if hasAutoPrice s \<and> \<not> truthy_id (autoFetchIntervalId s) then startAutoFetchInterval s
      else if \<not> hasAutoPrice s \<and> truthy_id (autoFetchIntervalId s) then stopAutoFetchInterval s
      else if hasAutoPrice s \<and> truthy_id (autoFetchIntervalId s) then startAutoFetchInterval s
      else s)"

definition fireTimer :: "nat \<Rightarrow> app \<Rightarrow> app" where
  \<comment> \<open>the timer with this id fires: a timeout is spent, an interval stays\<close>
  "fireTimer h s =
     (case map_of (timers s) h of
        None \<Rightarrow> s
      | Some SaveTabStateLater \<Rightarrow> saveCurrentTabState (clearTimer h s)
      | Some ClearLoadingFlag \<Rightarrow> (clearTimer h s)\<lparr> isLoadingTabState := False \<rparr>
      | Some AutoFetchTick \<Rightarrow> fetchPriceForActiveTab s)"

subsection \<open>Tab operations\<close>

definition generateTabId :: "int \<Rightarrow> string \<Rightarrow> string" where
  \<comment> \<open>arguments: \<open>Date.now()\<close> and the digits \<open>Math.random().toString(36).substr(2, 9)\<close>\<close>
  "generateTabId now rnd = ''tab_'' @ showInt now @ ''_'' @ rnd"

definition newTab :: "string \<Rightarrow> int \<Rightarrow> tab" where
  "newTab i now =
     \<lparr> tab_id = i, tab_name = ''New Tab'', stockSymbol = '''', entryPrice = '''',
       targetPrice = '''', quantity = '''', tpPercent = '''', slPercent = '''',
       tab_autoPriceEnabled = False, tab_calculationMode = ''current'', createdAt = now \<rparr>"

definition addNewTab :: "string \<Rightarrow> int \<Rightarrow> app \<Rightarrow> app" where
  \<comment> \<open>arguments: the id \<open>generateTabId()\<close> returns, and \<open>Date.now()\<close>\<close>
  "addNewTab i now s =
     (if MAX_TABS \<le> length (tabs s) then
        s\<lparr> alerts := alerts s @
          [''Maximum 20 tabs allowed. Please close some tabs to add new ones.''] \<rparr>
      else
        let s1 = (if truthy_str (activeTabId s) then saveCurrentTabState s else s);
            s2 = s1\<lparr> tabs := tabs s1 @ [newTab i now], activeTabId := Some i \<rparr>
        in clearCalculatorForm (saveTabsToStorage s2))"

definition switchTab :: "string \<Rightarrow> app \<Rightarrow> app" where
  "switchTab tabId s =
     (if activeTabId s = Some tabId then s
      else
        let s1 = (if truthy_str (activeTabId s) then saveCurrentTabState s else s);
            s2 = s1\<lparr> activeTabId := Some tabId,
                     localStorage := (localStorage s1)\<lparr> stored_activeTabId := Some tabId \<rparr> \<rparr>
        in checkAutoFetchInterval (loadTabState tabId s2))"

definition closeTab :: "bool \<Rightarrow> string \<Rightarrow> app \<Rightarrow> js_error + app" where
  \<comment> \<open>first argument: the answer to \<open>confirm\<close>, read only when the dialog is shown.
      \<open>Inl TypeError\<close>: \<open>tabs[newActiveIndex]\<close> was \<open>undefined\<close>.\<close>
  "closeTab confirmed tabId s =
     (if length (tabs s) = 1 then
        Inr (s\<lparr> alerts := alerts s @
          [''Cannot close the last tab. At least one tab must remain open.''] \<rparr>)
      else
        let tab = find (\<lambda>t. tab_id t = tabId) (tabs s);
            hasSymbol = (case tab of None \<Rightarrow> False | Some t \<Rightarrow> stockSymbol t \<noteq> [])
        in if hasSymbol \<and> \<not> confirmed then Inr s
           else
             let s1 = (if hasSymbol then
                         s\<lparr> localStorage := (localStorage s)\<lparr> stockPrice :=
                              (stockPrice (localStorage s))
                                (toUpperCase (stockSymbol (the tab)) := None) \<rparr> \<rparr>
                       else s);
                 tabIndex = findIndex (\<lambda>t. tab_id t = tabId) (tabs s1);
                 s2 = s1\<lparr> tabs := splice_delete1 (tabs s1) tabIndex \<rparr>
             in if activeTabId s2 = Some tabId then
                  (let newActiveIndex = nat (max 0 (tabIndex - 1))
                   in if length (tabs s2) \<le> newActiveIndex then Inl TypeError
                      else
                        let a = tab_id (tabs s2 ! newActiveIndex);
                            s3 = s2\<lparr> activeTabId := Some a,
                                     localStorage := (localStorage s2)\<lparr> stored_activeTabId := Some a \<rparr> \<rparr>
                        in Inr (checkAutoFetchInterval (saveTabsToStorage (loadTabState a s3))))
                else Inr (checkAutoFetchInterval (saveTabsToStorage s2)))"

definition reorderTabs :: "string \<Rightarrow> string \<Rightarrow> app \<Rightarrow> app" where
  "reorderTabs draggedId dropTargetId s =
     (let draggedIndex = findIndex (\<lambda>t. tab_id t = draggedId) (tabs s);
          dropIndex = findIndex (\<lambda>t. tab_id t = dropTargetId) (tabs s)
      in if draggedIndex = - 1 \<or> dropIndex = - 1 then s
         else
           let draggedTab = tabs s ! nat draggedIndex;
               removed = splice_delete1 (tabs s) draggedIndex
           in saveTabsToStorage (s\<lparr> tabs := splice_insert removed dropIndex draggedTab \<rparr>))"

subsection \<open>Auto-price toggle and symbol field\<close>

definition entryPriceInput :: "app \<Rightarrow> app" where
  \<comment> \<open>an \<open>input\<close> event on the price field: its listeners recompute the results panel
      (display elements only) and schedule the debounced save\<close>
  "entryPriceInput s = debouncedSaveTabState s"

definition fetchStockPrice :: "(jsnum \<Rightarrow> string) \<Rightarrow> int \<Rightarrow> string \<Rightarrow> app \<Rightarrow> app" where
  \<comment> \<open>The function up to its first \<open>await\<close>. Arguments: the text \<open>Number::toString\<close> gives
      from \<open>10^21\<close> on, where \<open>toFixed\<close> is not modelled; \<open>Date.now()\<close>; the symbol.
      A cached quote is written into the price field and an \<open>input\<close> event is dispatched
      on it; without one the request is sent and added to \<open>fetchLog\<close>.\<close>
  "fetchStockPrice expText now symb s =
     (if symb = [] \<or> \<not> autoPriceEnabled s then s
      else
        let upperSymbol = toUpperCase symb;
            (cachedData, st) = getCachedPrice now upperSymbol (localStorage s);
            s1 = s\<lparr> localStorage := st \<rparr>
        in case cachedData of
             Some d \<Rightarrow>
               entryPriceInput (s1\<lparr> inputs := (inputs s1)\<lparr> in_entryPrice :=
                 (case toFixed 2 (price d) of Some t \<Rightarrow> t | None \<Rightarrow> expText (price d)) \<rparr> \<rparr>)
           | None \<Rightarrow> s1\<lparr> fetchLog := fetchLog s1 @ [upperSymbol] \<rparr>)"

definition toggleAutoPrice :: "(jsnum \<Rightarrow> string) \<Rightarrow> int \<Rightarrow> app \<Rightarrow> app" where
  \<comment> \<open>arguments as for \<open>fetchStockPrice\<close>\<close>
  "toggleAutoPrice expText now s =
     (let s1 = s\<lparr> autoPriceEnabled := \<not> autoPriceEnabled s \<rparr>;
          typed = trim (in_stockSymbol (inputs s1));
          s2 = (if autoPriceEnabled s1 \<and> typed \<noteq> [] then fetchStockPrice expText now typed s1
                else s1);
          s3 = (if truthy_str (activeTabId s2) then saveCurrentTabState s2 else s2)
      in checkAutoFetchInterval s3)"

definition stockSymbolInput :: "string \<Rightarrow> app \<Rightarrow> app" where
  \<comment> \<open>An \<open>input\<close> event on the symbol field, which now holds \<open>v\<close>: the listener the tab
      system registers. The field's other listener, which schedules \<open>fetchStockPrice\<close> half
      a second later, is not modelled.\<close>
  "stockSymbolInput v s =
     (let s1 = s\<lparr> inputs := (inputs s)\<lparr> in_stockSymbol := v \<rparr> \<rparr>
      in if truthy_str (activeTabId s1) then checkAutoFetchInterval (debouncedSaveTabState s1)
         else s1)"

subsection \<open>Sequences of operations and invariants\<close>

datatype tab_op =
    Create string int
  | Close bool string
  | Reorder string string

fun apply_op :: "tab_op \<Rightarrow> app \<Rightarrow> js_error + app" where
  "apply_op (Create i now) s = Inr (addNewTab i now s)"
| "apply_op (Close c i) s = closeTab c i s"
| "apply_op (Reorder a b) s = Inr (reorderTabs a b s)"

fun run_ops :: "tab_op list \<Rightarrow> app \<Rightarrow> js_error + app" where
  "run_ops [] s = Inr s"
| "run_ops (op # ops) s = (case apply_op op s of Inl e \<Rightarrow> Inl e | Inr s' \<Rightarrow> run_ops ops s')"

definition store_ok :: "app \<Rightarrow> bool" where
  \<comment> \<open>the ids are pairwise distinct and \<open>activeTabId\<close> is the id of a record\<close>
  "store_ok s =
     (distinct (map tab_id (tabs s)) \<and>
      activeTabId s \<in> Some ` set (map tab_id (tabs s)))"

fun op_ok :: "tab_op \<Rightarrow> app \<Rightarrow> bool" where
  \<comment> \<open>a created id is new to the collection; a closed tab is one of the collection\<close>
  "op_ok (Create i now) s = (i \<notin> set (map tab_id (tabs s)))"
| "op_ok (Close c i) s = (i \<in> set (map tab_id (tabs s)))"
| "op_ok (Reorder a b) s = True"

fun ops_ok :: "tab_op list \<Rightarrow> app \<Rightarrow> bool" where
  "ops_ok [] s = True"
| "ops_ok (op # ops) s =
     (op_ok op s \<and> (case apply_op op s of Inl e \<Rightarrow> True | Inr s' \<Rightarrow> ops_ok ops s'))"

definition poller_ok :: "app \<Rightarrow> bool" where
  \<comment> \<open>every poll interval still live is the one \<open>autoFetchIntervalId\<close> names; timer ids are
      unique and none is above the last id issued\<close>
  "poller_ok s =
     ((\<forall>h \<in> set (liveIntervals s). autoFetchIntervalId s = Some h \<and> h \<noteq> 0) \<and>
      distinct (map fst (timers s)) \<and>
      (\<forall>h \<in> set (map fst (timers s)). h \<le> lastTimerId s))"

section \<open>Example states\<close>

definition emptyStorage :: storage where
  "emptyStorage = \<lparr> stockTabs = None, stored_activeTabId = None, stockPrice = Map.empty \<rparr>"

definition sampleTab :: "string \<Rightarrow> string \<Rightarrow> tab" where
  \<comment> \<open>a tab with this id and symbol, everything else as created\<close>
  "sampleTab i sy = (newTab i 0)\<lparr> stockSymbol := sy \<rparr>"

definition sampleApp :: "tab list \<Rightarrow> string \<Rightarrow> app" where
  \<comment> \<open>a store with these tabs and this active id: empty form, nothing pending, nothing stored\<close>
  "sampleApp ts a =
     \<lparr> tabs = ts, activeTabId = Some a, autoPriceEnabled = False, calculationMode = ''current'',
       isLoadingTabState = False, saveDebounceTimer = None, autoFetchIntervalId = None,
       inputs = defaultForm, localStorage = emptyStorage, timers = [], lastTimerId = 0,
       alerts = [], fetchLog = [] \<rparr>"

definition sampleQuote :: "string \<Rightarrow> int \<Rightarrow> quote" where
  "sampleQuote sy ts =
     \<lparr> symbol = sy, price = Fin 150, percentChange = None, previousClose = None,
       openPrice = None, dayHigh = None, dayLow = None, volume = None, week52High = None,
       week52Low = None, timestamp = ts \<rparr>"

definition loadingExample :: app where
  "loadingExample =
     (sampleApp [sampleTab ''a'' ''AAPL'', sampleTab ''b'' ''''] ''a'')
       \<lparr> isLoadingTabState := True,
         inputs := defaultForm\<lparr> in_stockSymbol := ''MSFT'', in_entryPrice := ''12.5'' \<rparr>,
         saveDebounceTimer := Some 1,
         timers := [(1, SaveTabStateLater), (2, ClearLoadingFlag)],
         lastTimerId := 2 \<rparr>"

definition cacheExample :: storage where
  "cacheExample = emptyStorage\<lparr> stockPrice := [''AAPL'' \<mapsto> sampleQuote ''AAPL'' 1000] \<rparr>"

definition threeTabs :: app where
  "threeTabs = sampleApp [sampleTab ''a'' '''', sampleTab ''b'' '''', sampleTab ''c'' ''''] ''c''"

definition sharedSymbolExample :: app where
  "sharedSymbolExample =
     (sampleApp [sampleTab ''a'' ''aapl'', sampleTab ''b'' ''AAPL''] ''b'')
       \<lparr> localStorage := emptyStorage\<lparr> stockPrice := [''AAPL'' \<mapsto> sampleQuote ''AAPL'' 1000] \<rparr> \<rparr>"

definition pollingExample :: app where
  \<comment> \<open>tab \<open>a\<close> is active and polled by interval 1; tab \<open>b\<close> wants polling, tab \<open>c\<close> does not\<close>
  "pollingExample =
     (sampleApp [(sampleTab ''a'' ''AAPL'')\<lparr> tab_autoPriceEnabled := True \<rparr>,
                 (sampleTab ''b'' ''msft'')\<lparr> tab_autoPriceEnabled := True \<rparr>,
                 sampleTab ''c'' ''TSLA''] ''a'')
       \<lparr> autoFetchIntervalId := Some 1, timers := [(1, AutoFetchTick)], lastTimerId := 1,
         fetchLog := [''AAPL''] \<rparr>"

definition twoTabs :: app where
  "twoTabs =
     sampleApp [sampleTab (generateTabId 1700000000000 ''k3j9x0abc'') ''AAPL'',
                sampleTab (generateTabId 1700000000500 ''q7w2e5rty'') '''']
       (generateTabId 1700000000500 ''q7w2e5rty'')"

definition symbolEditExample :: app where
  \<comment> \<open>auto-price is on for the active tab \<open>a\<close>, which has no symbol yet; nothing is polled\<close>
  "symbolEditExample =
     (sampleApp [(sampleTab ''a'' '''')\<lparr> tab_autoPriceEnabled := True \<rparr>, sampleTab ''b'' ''''] ''a'')
       \<lparr> autoPriceEnabled := True \<rparr>"

section \<open>Evaluation of the number model\<close>

lemma ilog2_0: "ilog2 0 = 0"
  by (subst ilog2.simps) simp

lemma ilog2_1: "ilog2 1 = 0"
  by (subst ilog2.simps) simp

lemma ilog2_Suc0: "ilog2 (Suc 0) = 0"
  by (subst ilog2.simps) simp

lemma ilog2_numeral:
  "ilog2 (numeral k) = (if (numeral k :: nat) < 2 then 0 else Suc (ilog2 (numeral k div 2)))"
  by (rule ilog2.simps)

lemma MAX_VALUE_eq:
  "MAX_VALUE = 179769313486231570814527423731704356798070567525844996598917476803157260780028538760589558632766878171540458953514382464234321326889464182768467546703537516986049910576551282076245490090389328944075868508455133942304583236903222948165808559332123348274797826204144723168738177180919299881250404026184124858368"
  by (simp add: MAX_VALUE_def)

text \<open>The same function with the local names expanded, for rewriting at a numeral.\<close>

lemma round64_unfold:
  "round64 x =
     (if x = 0 then Fin 0
      else if MAX_VALUE < of_int (round_half_even (\<bar>x\<bar> / pow2 (max (floor_log2 \<bar>x\<bar>) (- 1022) - 52)))
                            * pow2 (max (floor_log2 \<bar>x\<bar>) (- 1022) - 52)
           then (if 0 < x then PInf else NInf)
           else Fin (if 0 < x
                     then of_int (round_half_even (\<bar>x\<bar> / pow2 (max (floor_log2 \<bar>x\<bar>) (- 1022) - 52)))
                            * pow2 (max (floor_log2 \<bar>x\<bar>) (- 1022) - 52)
                     else - (of_int (round_half_even (\<bar>x\<bar> / pow2 (max (floor_log2 \<bar>x\<bar>) (- 1022) - 52)))
                            * pow2 (max (floor_log2 \<bar>x\<bar>) (- 1022) - 52))))"
  by (simp add: round64_def Let_def)

lemma jsub_Fin: "jsub (Fin a) (Fin b) = round64 (a - b)"
  by (simp add: jsub_def jneg_def)

lemma jmul_Fin: "jmul (Fin a) (Fin b) = round64 (a * b)"
  by (simp add: jmul_def is_inf_def)

lemma jdiv_Fin:
  "jdiv (Fin a) (Fin b) =
     (if b = 0 then (if a = 0 then NaN else jinf (0 < a)) else round64 (a / b))"
  by (simp add: jdiv_def is_inf_def)

lemma showNat_numeral:
  "showNat (numeral k) =
     (if (numeral k :: nat) < 10 then [digit_char (numeral k)]
      else showNat (numeral k div 10) @ [digit_char (numeral k mod 10)])"
  by (rule showNat.simps)

lemma showNat_0: "showNat 0 = ''0''"
  by (subst showNat.simps) (simp add: digit_char_def)

lemma showNat_1: "showNat 1 = ''1''"
  by (subst showNat.simps) (simp add: digit_char_def)

lemma showNat_Suc0: "showNat (Suc 0) = ''1''"
  by (subst showNat.simps) (simp add: digit_char_def)

lemmas num_eval = round64_unfold floor_log2_def pow2_def round_half_even_def Let_def
  ilog2_0 ilog2_1 ilog2_Suc0 ilog2_numeral MAX_VALUE_eq jsub_Fin jmul_Fin jdiv_Fin jinf_def

lemmas show_eval = showNat_numeral showNat_0 showNat_1 showNat_Suc0 digit_char_def
  fixedDigits_def

lemma round64_0: "round64 0 = Fin 0"
  by (simp add: round64_def)

lemma round64_1: "round64 1 = Fin 1"
  by (simp add: num_eval)

text \<open>Spot checks of the rounding against the binary64 values of 0.1 and 1.1.\<close>

lemma round64_tenth: "round64 (1 / 10) = Fin (3602879701896397 / 2 ^ 55)"
  by (simp add: num_eval)

lemma round64_eleven_tenths: "round64 (11 / 10) = Fin (2476979795053773 / 2 ^ 51)"
  by (simp add: num_eval)

text \<open>Ties go to the even neighbour: above \<open>2^53\<close> the binary64 numbers are the even integers.\<close>

lemma round64_ties:
  "round64 9007199254740993 = Fin 9007199254740992"
  "round64 9007199254740995 = Fin 9007199254740996"
  "round64 (- 9007199254740993) = Fin (- 9007199254740992)"
  by (simp_all add: num_eval)

section \<open>Trade math: results\<close>

lemma tradeLevels_unfold:
  "tradeLevels b q tp sl =
     \<lparr> tpPrice = jmul b (jadd (Fin 1) (jdiv tp (Fin 100))),
       slPrice = jmul b (jsub (Fin 1) (jdiv sl (Fin 100))),
       investment = jmul b q,
       maxProfit = jmul (jsub (jmul b (jadd (Fin 1) (jdiv tp (Fin 100)))) b) q,
       maxLoss = jmul (jsub b (jmul b (jsub (Fin 1) (jdiv sl (Fin 100))))) q,
       perShareTP = jsub (jmul b (jadd (Fin 1) (jdiv tp (Fin 100)))) b,
       perShareSL = jsub b (jmul b (jsub (Fin 1) (jdiv sl (Fin 100)))),
       ratio = toFixed 1 (jdiv (jmul (jsub (jmul b (jadd (Fin 1) (jdiv tp (Fin 100)))) b) q)
                               (jmul (jsub b (jmul b (jsub (Fin 1) (jdiv sl (Fin 100))))) q)) \<rparr>"
  by (simp add: tradeLevels_def Let_def)

text \<open>
  The numbers behind the example: in binary64, \<open>100 * (1 + 10 / 100)\<close> is
  \<open>110.00000000000001\<close> and the profit is \<open>100.00000000000014\<close>; two decimals hide it.
\<close>

lemma levels_example:
  "tradeLevels (Fin 100) (Fin 10) (Fin 10) (Fin 5) =
     \<lparr> tpPrice = Fin (7740561859543041 / 70368744177664), slPrice = Fin 95,
       investment = Fin 1000,
       maxProfit = Fin (3518437208883205 / 35184372088832), maxLoss = Fin 50,
       perShareTP = Fin (703687441776641 / 70368744177664), perShareSL = Fin 5,
       ratio = Some ''2.0'' \<rparr>"
  by (simp add: tradeLevels_unfold num_eval show_eval)

lemma validate_current_ok:
  "0 < p \<Longrightarrow> 0 < q \<Longrightarrow> 0 \<le> tp \<Longrightarrow> 0 \<le> sl \<Longrightarrow>
   validate ''current'' (Fin p) tgt (Fin q) (Fin tp) (Fin sl) = no_errors"
  by (simp add: validate_def no_errors_def falsy_def jle_def isNaN_def)

text \<open>
  C7. With price 100, quantity 10, take profit 10 % and stop loss 5 % in current-price mode,
  \<open>calculateTradeLevels\<close> passes validation and shows take-profit price 110.00, stop-loss
  price 95.00, investment 1000.00, maximum profit 100.00, maximum loss 50.00 and the
  risk/reward text \<open>1:2.0\<close>, whatever the target-price field and the exchange rate hold.
\<close>

theorem calculateTradeLevels_example:
  "\<exists>d. calculateTradeLevels ''current'' (Fin 100) tgt (Fin 10) (Fin 10) (Fin 5) usd = Inr d \<and>
       resultTP d = Some ''$110.00'' \<and>
       resultSL d = Some ''$95.00'' \<and>
       resultInvestment d = Some ''$1000.00'' \<and>
       maxProfitText d = Some ''+$100.00'' \<and>
       maxLossText d = Some ''-$50.00'' \<and>
       riskReward d = Some ''1:2.0''"
  by (simp add: calculateTradeLevels_def validate_current_ok levels_example prefixed_def
        show_eval Let_def)

text \<open>
  C8, as the code has it. For every positive finite base price and positive finite quantity
  with both percentages 0, the take-profit and stop-loss prices equal the base price and
  the maximum profit and loss are 0; the ratio is then computed as \<open>0 / 0\<close>, which is
  \<open>NaN\<close>, and the risk/reward text shown is \<open>1:NaN\<close>. No fallback is substituted.
\<close>

theorem zero_percent_levels:
  assumes "0 < b" and "round64 b = Fin b" and "0 < q"
  shows "tradeLevels (Fin b) (Fin q) (Fin 0) (Fin 0) =
           \<lparr> tpPrice = Fin b, slPrice = Fin b, investment = round64 (b * q),
             maxProfit = Fin 0, maxLoss = Fin 0, perShareTP = Fin 0, perShareSL = Fin 0,
             ratio = Some ''NaN'' \<rparr> \<and>
         (\<exists>d. calculateTradeLevels ''current'' (Fin b) tgt (Fin q) (Fin 0) (Fin 0) usd = Inr d \<and>
              riskReward d = Some ''1:NaN'')"
proof -
  have l: "tradeLevels (Fin b) (Fin q) (Fin 0) (Fin 0) =
           \<lparr> tpPrice = Fin b, slPrice = Fin b, investment = round64 (b * q),
             maxProfit = Fin 0, maxLoss = Fin 0, perShareTP = Fin 0, perShareSL = Fin 0,
             ratio = Some ''NaN'' \<rparr>"
    using assms(2)
    by (simp add: tradeLevels_unfold jdiv_Fin jsub_Fin jmul_Fin round64_0 round64_1)
  have v: "validate ''current'' (Fin b) tgt (Fin q) (Fin 0) (Fin 0) = no_errors"
    using assms(1,3) by (simp add: validate_current_ok)
  show ?thesis
    by (simp add: l v calculateTradeLevels_def prefixed_def Let_def)
qed

theorem zero_percent_levels_witness:
  "(0::real) < 100 \<and> round64 100 = Fin 100 \<and> (0::real) < 10 \<and>
   tradeLevels (Fin 100) (Fin 10) (Fin 0) (Fin 0) =
     \<lparr> tpPrice = Fin 100, slPrice = Fin 100, investment = Fin 1000,
       maxProfit = Fin 0, maxLoss = Fin 0, perShareTP = Fin 0, perShareSL = Fin 0,
       ratio = Some ''NaN'' \<rparr> \<and>
   (\<exists>d. calculateTradeLevels ''current'' (Fin 100) NaN (Fin 10) (Fin 0) (Fin 0) (Fin (9 / 2)) = Inr d \<and>
        riskReward d = Some ''1:NaN'')"
proof -
  have r: "round64 100 = Fin 100" by (simp add: num_eval)
  have i: "round64 (100 * 10) = Fin 1000" by (simp add: num_eval)
  show ?thesis
    using zero_percent_levels [of 100 10 NaN "Fin (9 / 2)", OF _ r] r i by simp
qed

text \<open>
  The claim as stated asks for a defined fallback in place of \<open>NaN\<close>; at price 100,
  quantity 10 and both percentages 0 the text shown is \<open>1:NaN\<close>.
\<close>

theorem ratio_NaN_counterexample:
  "\<not> isl (calculateTradeLevels ''current'' (Fin 100) NaN (Fin 10) (Fin 0) (Fin 0) (Fin (9 / 2))) \<and>
   riskReward (projr (calculateTradeLevels ''current'' (Fin 100) NaN (Fin 10) (Fin 0) (Fin 0) (Fin (9 / 2))))
     = Some ''1:NaN''"
proof -
  have l: "tradeLevels (Fin 100) (Fin 10) (Fin 0) (Fin 0) =
     \<lparr> tpPrice = Fin 100, slPrice = Fin 100, investment = Fin 1000,
       maxProfit = Fin 0, maxLoss = Fin 0, perShareTP = Fin 0, perShareSL = Fin 0,
       ratio = Some ''NaN'' \<rparr>"
    by (simp add: tradeLevels_unfold num_eval)
  show ?thesis
    by (simp add: calculateTradeLevels_def validate_current_ok l prefixed_def Let_def)
qed

section \<open>Form sync, refusals and the quote cache\<close>

lemma clearTimer_fields:
  "tabs (clearTimer h s) = tabs s" "activeTabId (clearTimer h s) = activeTabId s"
  "localStorage (clearTimer h s) = localStorage s" "isLoadingTabState (clearTimer h s) = isLoadingTabState s"
  "autoFetchIntervalId (clearTimer h s) = autoFetchIntervalId s"
  "saveDebounceTimer (clearTimer h s) = saveDebounceTimer s"
  "fetchLog (clearTimer h s) = fetchLog s" "inputs (clearTimer h s) = inputs s"
  "lastTimerId (clearTimer h s) = lastTimerId s" "alerts (clearTimer h s) = alerts s"
  "autoPriceEnabled (clearTimer h s) = autoPriceEnabled s"
  "calculationMode (clearTimer h s) = calculationMode s"
  "timers (clearTimer h s) = filter (\<lambda>p. fst p \<noteq> h) (timers s)"
  by (simp_all add: clearTimer_def)

text \<open>
  C3. While a load is in progress (the loading flag is set), \<open>saveCurrentTabState\<close> changes
  nothing, \<open>debouncedSaveTabState\<close> changes nothing (it does not even schedule a save), and
  a debounced save scheduled earlier that fires now leaves the records, the persisted state
  and the active pointer as they are.
\<close>

theorem saveCurrentTabState_noop_while_loading:
  assumes "isLoadingTabState s"
  shows "saveCurrentTabState s = s \<and>
         debouncedSaveTabState s = s \<and>
         (map_of (timers s) h = Some SaveTabStateLater \<longrightarrow>
            tabs (fireTimer h s) = tabs s \<and>
            localStorage (fireTimer h s) = localStorage s \<and>
            activeTabId (fireTimer h s) = activeTabId s)"
  using assms
  by (simp add: saveCurrentTabState_def debouncedSaveTabState_def fireTimer_def clearTimer_fields)

theorem saveCurrentTabState_noop_while_loading_witness:
  "isLoadingTabState loadingExample \<and>
   map_of (timers loadingExample) 1 = Some SaveTabStateLater \<and>
   saveCurrentTabState loadingExample = loadingExample \<and>
   debouncedSaveTabState loadingExample = loadingExample \<and>
   tabs (fireTimer 1 loadingExample) = [sampleTab ''a'' ''AAPL'', sampleTab ''b'' ''''] \<and>
   localStorage (fireTimer 1 loadingExample) = emptyStorage \<and>
   activeTabId (fireTimer 1 loadingExample) = Some ''a''"
proof -
  have l: "isLoadingTabState loadingExample"
    by (simp add: loadingExample_def sampleApp_def)
  have t: "map_of (timers loadingExample) 1 = Some SaveTabStateLater"
    by (simp add: loadingExample_def sampleApp_def)
  show ?thesis
    using saveCurrentTabState_noop_while_loading [OF l, of 1] l t
    by (simp add: loadingExample_def sampleApp_def)
qed

text \<open>Outside a load the same timer does write the form into the record.\<close>

lemma save_when_not_loading_example:
  "map stockSymbol (tabs (saveCurrentTabState (loadingExample\<lparr> isLoadingTabState := False \<rparr>)))
     = [''MSFT'', '''']"
  by (simp add: saveCurrentTabState_def loadingExample_def sampleApp_def sampleTab_def newTab_def
        is_active_def saveTabsToStorage_def trim_def is_space_def defaultForm_def)

text \<open>
  C6. With exactly one tab in the collection, \<open>closeTab\<close> (for any id and any answer to the
  confirmation) only shows the refusal message: the collection, the active pointer, the
  persisted state and everything else are unchanged.
\<close>

theorem closeTab_last_refused:
  assumes "length (tabs s) = 1"
  shows "closeTab c i s =
           Inr (s\<lparr> alerts := alerts s @
             [''Cannot close the last tab. At least one tab must remain open.''] \<rparr>)"
  using assms by (simp add: closeTab_def)

theorem closeTab_last_refused_witness:
  "length (tabs (sampleApp [sampleTab ''a'' ''AAPL''] ''a'')) = 1 \<and>
   closeTab True ''a'' (sampleApp [sampleTab ''a'' ''AAPL''] ''a'') =
     Inr ((sampleApp [sampleTab ''a'' ''AAPL''] ''a'')\<lparr> alerts :=
       [''Cannot close the last tab. At least one tab must remain open.''] \<rparr>)"
proof -
  have l: "length (tabs (sampleApp [sampleTab ''a'' ''AAPL''] ''a'')) = 1"
    by (simp add: sampleApp_def)
  show ?thesis
    using closeTab_last_refused [OF l, of True "''a''"] l by (simp add: sampleApp_def)
qed

text \<open>
  C10. \<open>getCachedPrice\<close> returns a stored entry exactly when \<open>now - timestamp\<close> is below
  the freshness window, and then leaves the storage alone; a stale entry is deleted by the
  read, which returns \<open>null\<close>; an absent key gives \<open>null\<close> and an unchanged storage.
\<close>

theorem getCachedPrice_read:
  "(stockPrice st k = Some d \<and> now - timestamp d < PRICE_CACHE_DURATION \<longrightarrow>
      getCachedPrice now k st = (Some d, st)) \<and>
   (stockPrice st k = Some d \<and> \<not> now - timestamp d < PRICE_CACHE_DURATION \<longrightarrow>
      getCachedPrice now k st = (None, st\<lparr> stockPrice := (stockPrice st)(k := None) \<rparr>)) \<and>
   (stockPrice st k = None \<longrightarrow> getCachedPrice now k st = (None, st))"
  by (simp add: getCachedPrice_def)

theorem getCachedPrice_read_witness:
  "stockPrice cacheExample ''AAPL'' = Some (sampleQuote ''AAPL'' 1000) \<and>
   stockPrice cacheExample ''MSFT'' = None \<and>
   60999 - timestamp (sampleQuote ''AAPL'' 1000) < PRICE_CACHE_DURATION \<and>
   \<not> 61000 - timestamp (sampleQuote ''AAPL'' 1000) < PRICE_CACHE_DURATION \<and>
   getCachedPrice 60999 ''AAPL'' cacheExample = (Some (sampleQuote ''AAPL'' 1000), cacheExample) \<and>
   fst (getCachedPrice 61000 ''AAPL'' cacheExample) = None \<and>
   stockPrice (snd (getCachedPrice 61000 ''AAPL'' cacheExample)) ''AAPL'' = None \<and>
   getCachedPrice 61000 ''MSFT'' cacheExample = (None, cacheExample)"
proof -
  have a: "stockPrice cacheExample ''AAPL'' = Some (sampleQuote ''AAPL'' 1000)"
    by (simp add: cacheExample_def)
  have m: "stockPrice cacheExample ''MSFT'' = None"
    by (simp add: cacheExample_def)
  have f: "60999 - timestamp (sampleQuote ''AAPL'' 1000) < PRICE_CACHE_DURATION"
    and g: "\<not> 61000 - timestamp (sampleQuote ''AAPL'' 1000) < PRICE_CACHE_DURATION"
    by (simp_all add: sampleQuote_def PRICE_CACHE_DURATION_def)
  show ?thesis
    using getCachedPrice_read [of cacheExample "''AAPL''" "sampleQuote ''AAPL'' 1000" 60999]
      getCachedPrice_read [of cacheExample "''AAPL''" "sampleQuote ''AAPL'' 1000" 61000]
      getCachedPrice_read [of cacheExample "''MSFT''" "sampleQuote ''AAPL'' 1000" 61000]
      a m f g
    by simp
qed

section \<open>Arrays: \<open>find\<close>, \<open>findIndex\<close> and \<open>splice\<close>\<close>

lemma findIndex_range: "- 1 \<le> findIndex P xs \<and> findIndex P xs < int (length xs)"
  by (induction xs) (auto simp: Let_def)

lemma findIndex_none_iff: "findIndex P xs = - 1 \<longleftrightarrow> (\<forall>x \<in> set xs. \<not> P x)"
proof (induction xs)
  case Nil
  show ?case by simp
next
  case (Cons x xs)
  have "findIndex P xs \<noteq> - 2"
    using findIndex_range [of P xs] by linarith
  with Cons show ?case by (auto simp: Let_def)
qed

lemma findIndex_nth:
  "findIndex P xs \<noteq> - 1 \<Longrightarrow> P (xs ! nat (findIndex P xs))"
proof (induction xs)
  case Nil
  then show ?case by simp
next
  case (Cons x xs)
  show ?case
  proof (cases "P x")
    case True
    then show ?thesis by simp
  next
    case False
    with Cons.prems have n: "findIndex P xs \<noteq> - 1"
      by (auto simp: Let_def split: if_splits)
    moreover have "0 \<le> findIndex P xs"
      using findIndex_range [of P xs] n by linarith
    ultimately show ?thesis
      using False Cons.IH by (simp add: Let_def nat_add_distrib)
  qed
qed

lemma findIndex_nat_less:
  "findIndex P xs \<noteq> - 1 \<Longrightarrow> nat (findIndex P xs) < length xs"
  using findIndex_range [of P xs] by linarith

lemma findIndex_nonneg: "findIndex P xs \<noteq> - 1 \<Longrightarrow> 0 \<le> findIndex P xs"
  using findIndex_range [of P xs] by linarith

lemma find_findIndex:
  "find P xs = (if findIndex P xs = - 1 then None else Some (xs ! nat (findIndex P xs)))"
proof (induction xs)
  case Nil
  show ?case by simp
next
  case (Cons x xs)
  have "findIndex P xs \<noteq> - 1 \<Longrightarrow> nat (findIndex P xs + 1) = Suc (nat (findIndex P xs))"
    using findIndex_nonneg [of P xs] by linarith
  with Cons show ?case by (auto simp: Let_def)
qed

lemma splice_delete1_nat:
  "i < length xs \<Longrightarrow> splice_delete1 xs (int i) = take i xs @ drop (Suc i) xs"
  by (simp add: splice_delete1_def splice_start_def)

lemma splice_insert_nat:
  "j \<le> length xs \<Longrightarrow> splice_insert xs (int j) x = take j xs @ x # drop j xs"
  by (simp add: splice_insert_def splice_start_def)

lemma splice_delete1_last:
  "xs \<noteq> [] \<Longrightarrow> splice_delete1 xs (- 1) = butlast xs"
  by (cases xs rule: rev_cases) (simp_all add: splice_delete1_def splice_start_def)

section \<open>Reordering\<close>

lemma removed_length:
  "i < length xs \<Longrightarrow> length (take i xs @ drop (Suc i) xs) = length xs - 1"
  by auto

lemma removed_nth:
  assumes "i < length xs" and "k < length xs - 1"
  shows "(take i xs @ drop (Suc i) xs) ! k = (if k < i then xs ! k else xs ! Suc k)"
  using assms by (auto simp: nth_append min_def)

lemma ins_nth_at: "j \<le> length r \<Longrightarrow> (take j r @ x # drop j r) ! j = x"
  by (simp add: nth_append)

lemma ins_nth_after: "j < length r \<Longrightarrow> (take j r @ x # drop j r) ! Suc j = r ! j"
  by (simp add: nth_append)

lemma ins_nth_before: "0 < j \<Longrightarrow> j \<le> length r \<Longrightarrow> (take j r @ x # drop j r) ! (j - 1) = r ! (j - 1)"
  by (simp add: nth_append)

lemma ins_delete: "j \<le> length r \<Longrightarrow> splice_delete1 (take j r @ x # drop j r) (int j) = r"
  by (simp add: splice_delete1_def splice_start_def)

lemma move_same:
  assumes "i < length xs"
  shows "take i (take i xs @ drop (Suc i) xs) @ xs ! i # drop i (take i xs @ drop (Suc i) xs) = xs"
  using assms by (simp add: id_take_nth_drop [symmetric])

lemma saveTabsToStorage_fields:
  "tabs (saveTabsToStorage s) = tabs s"
  "activeTabId (saveTabsToStorage s) = activeTabId s"
  "stockTabs (localStorage (saveTabsToStorage s)) = Some (tabs s)"
  "stockPrice (localStorage (saveTabsToStorage s)) = stockPrice (localStorage s)"
  "timers (saveTabsToStorage s) = timers s"
  "autoFetchIntervalId (saveTabsToStorage s) = autoFetchIntervalId s"
  "lastTimerId (saveTabsToStorage s) = lastTimerId s"
  "fetchLog (saveTabsToStorage s) = fetchLog s"
  "isLoadingTabState (saveTabsToStorage s) = isLoadingTabState s"
  by (simp_all add: saveTabsToStorage_def)

lemma reorderTabs_found:
  assumes "findIndex (\<lambda>t. tab_id t = a) (tabs s) = int i"
    and "findIndex (\<lambda>t. tab_id t = b) (tabs s) = int j"
  shows "tabs (reorderTabs a b s) =
           take j (take i (tabs s) @ drop (Suc i) (tabs s)) @ tabs s ! i #
           drop j (take i (tabs s) @ drop (Suc i) (tabs s))"
proof -
  define r where "r = take i (tabs s) @ drop (Suc i) (tabs s)"
  have i: "i < length (tabs s)" and j: "j < length (tabs s)"
    using findIndex_range [of "\<lambda>t. tab_id t = a" "tabs s"]
      findIndex_range [of "\<lambda>t. tab_id t = b" "tabs s"] assms by simp_all
  have d: "splice_delete1 (tabs s) (int i) = r"
    unfolding r_def using i by (rule splice_delete1_nat)
  have "j \<le> length r"
    using i j by (simp add: r_def)
  then have e: "splice_insert r (int j) (tabs s ! i) = take j r @ tabs s ! i # drop j r"
    by (rule splice_insert_nat)
  have "tabs (reorderTabs a b s) = splice_insert (splice_delete1 (tabs s) (int i)) (int j) (tabs s ! i)"
    by (simp add: reorderTabs_def assms Let_def saveTabsToStorage_fields)
  then show ?thesis
    by (simp only: d e) (simp only: r_def)
qed

text \<open>
  C9, as the code has it. For two distinct ids both in the collection, \<open>reorderTabs\<close> takes
  the moved record out and puts it at the index the target record had before the removal:
  the moved record ends directly before the target when it came from the right of it, and
  directly after the target when it came from the left. The other records keep their
  order, the new order is persisted and \<open>activeTabId\<close> is unchanged. With an id missing
  the state is unchanged, and with twice the same id the collection is unchanged.
\<close>

theorem reorderTabs_moves_to_target_index:
  "(a \<noteq> b \<and> a \<in> tab_id ` set (tabs s) \<and> b \<in> tab_id ` set (tabs s) \<longrightarrow>
      (let i = nat (findIndex (\<lambda>t. tab_id t = a) (tabs s));
           j = nat (findIndex (\<lambda>t. tab_id t = b) (tabs s));
           s' = reorderTabs a b s
       in tab_id (tabs s ! i) = a \<and> tab_id (tabs s ! j) = b \<and>
          tabs s' ! j = tabs s ! i \<and>
          splice_delete1 (tabs s') (int j) = splice_delete1 (tabs s) (int i) \<and>
          (j < i \<longrightarrow> tabs s' ! Suc j = tabs s ! j) \<and>
          (i < j \<longrightarrow> tabs s' ! (j - 1) = tabs s ! j) \<and>
          stockTabs (localStorage s') = Some (tabs s'))) \<and>
   (a \<notin> tab_id ` set (tabs s) \<or> b \<notin> tab_id ` set (tabs s) \<longrightarrow> reorderTabs a b s = s) \<and>
   tabs (reorderTabs a a s) = tabs s \<and>
   activeTabId (reorderTabs a b s) = activeTabId s"
proof (intro conjI impI)
  assume h: "a \<noteq> b \<and> a \<in> tab_id ` set (tabs s) \<and> b \<in> tab_id ` set (tabs s)"
  have fa: "findIndex (\<lambda>t. tab_id t = a) (tabs s) \<noteq> - 1"
    and fb: "findIndex (\<lambda>t. tab_id t = b) (tabs s) \<noteq> - 1"
    using h by (auto simp: findIndex_none_iff)
  obtain i j where ii: "findIndex (\<lambda>t. tab_id t = a) (tabs s) = int i"
    and jj: "findIndex (\<lambda>t. tab_id t = b) (tabs s) = int j"
    using findIndex_nonneg [OF fa] findIndex_nonneg [OF fb] by (metis nonneg_int_cases)
  define r where "r = take i (tabs s) @ drop (Suc i) (tabs s)"
  have i: "i < length (tabs s)" and j: "j < length (tabs s)"
    using findIndex_nat_less [OF fa] findIndex_nat_less [OF fb] ii jj by simp_all
  have ia: "tab_id (tabs s ! i) = a" and jb: "tab_id (tabs s ! j) = b"
    using findIndex_nth [OF fa] findIndex_nth [OF fb] ii jj by simp_all
  have lr: "length r = length (tabs s) - 1"
    unfolding r_def using i by (rule removed_length)
  have t: "tabs (reorderTabs a b s) = take j r @ tabs s ! i # drop j r"
    unfolding r_def by (rule reorderTabs_found [OF ii jj])
  have p: "stockTabs (localStorage (reorderTabs a b s)) = Some (tabs (reorderTabs a b s))"
    by (simp add: reorderTabs_def ii jj Let_def saveTabsToStorage_fields)
  have d: "splice_delete1 (tabs s) (int i) = r"
    unfolding r_def using i by (rule splice_delete1_nat)
  have jr: "j \<le> length r" using j lr by simp
  have c1: "tabs (reorderTabs a b s) ! j = tabs s ! i"
    unfolding t using jr by (rule ins_nth_at)
  have c2: "splice_delete1 (tabs (reorderTabs a b s)) (int j) = splice_delete1 (tabs s) (int i)"
    unfolding t d using jr by (rule ins_delete)
  have c3: "tabs (reorderTabs a b s) ! Suc j = tabs s ! j" if "j < i"
  proof -
    have "j < length r" using that i lr by simp
    then have "tabs (reorderTabs a b s) ! Suc j = r ! j"
      unfolding t by (rule ins_nth_after)
    also have "r ! j = tabs s ! j"
      unfolding r_def using removed_nth [OF i, of j] that i by simp
    finally show ?thesis .
  qed
  have c4: "tabs (reorderTabs a b s) ! (j - 1) = tabs s ! j" if "i < j"
  proof -
    have "0 < j" using that by simp
    then have "tabs (reorderTabs a b s) ! (j - 1) = r ! (j - 1)"
      unfolding t using jr by (rule ins_nth_before)
    also have "r ! (j - 1) = tabs s ! j"
      unfolding r_def using removed_nth [OF i, of "j - 1"] that j by simp
    finally show ?thesis .
  qed
  show "let i = nat (findIndex (\<lambda>t. tab_id t = a) (tabs s));
            j = nat (findIndex (\<lambda>t. tab_id t = b) (tabs s));
            s' = reorderTabs a b s
        in tab_id (tabs s ! i) = a \<and> tab_id (tabs s ! j) = b \<and>
           tabs s' ! j = tabs s ! i \<and>
           splice_delete1 (tabs s') (int j) = splice_delete1 (tabs s) (int i) \<and>
           (j < i \<longrightarrow> tabs s' ! Suc j = tabs s ! j) \<and>
           (i < j \<longrightarrow> tabs s' ! (j - 1) = tabs s ! j) \<and>
           stockTabs (localStorage s') = Some (tabs s')"
    using ia jb c1 c2 c3 c4 p by (simp add: ii jj Let_def)
next
  assume "a \<notin> tab_id ` set (tabs s) \<or> b \<notin> tab_id ` set (tabs s)"
  then have "findIndex (\<lambda>t. tab_id t = a) (tabs s) = - 1 \<or>
             findIndex (\<lambda>t. tab_id t = b) (tabs s) = - 1"
    by (auto simp: findIndex_none_iff)
  then show "reorderTabs a b s = s"
    by (auto simp: reorderTabs_def Let_def)
next
  show "tabs (reorderTabs a a s) = tabs s"
  proof (cases "findIndex (\<lambda>t. tab_id t = a) (tabs s) = - 1")
    case True
    then show ?thesis by (simp add: reorderTabs_def)
  next
    case False
    then obtain i where ii: "findIndex (\<lambda>t. tab_id t = a) (tabs s) = int i"
      using findIndex_nonneg [OF False] by (metis nonneg_int_cases)
    have "i < length (tabs s)"
      using findIndex_nat_less [OF False] ii by simp
    then show ?thesis
      unfolding reorderTabs_found [OF ii ii] by (rule move_same)
  qed
next
  show "activeTabId (reorderTabs a b s) = activeTabId s"
    by (simp add: reorderTabs_def Let_def saveTabsToStorage_fields)
qed

lemmas sample_defs = sampleApp_def sampleTab_def newTab_def emptyStorage_def defaultForm_def

theorem reorderTabs_moves_to_target_index_witness:
  "''a'' \<noteq> ''b'' \<and> ''a'' \<in> tab_id ` set (tabs threeTabs) \<and> ''b'' \<in> tab_id ` set (tabs threeTabs) \<and>
   ''c'' \<in> tab_id ` set (tabs threeTabs) \<and> ''z'' \<notin> tab_id ` set (tabs threeTabs) \<and>
   tabs (reorderTabs ''a'' ''b'' threeTabs) ! 1 = tabs threeTabs ! 0 \<and>
   tabs (reorderTabs ''a'' ''b'' threeTabs) ! 0 = tabs threeTabs ! 1 \<and>
   tabs (reorderTabs ''c'' ''a'' threeTabs) ! 0 = tabs threeTabs ! 2 \<and>
   tabs (reorderTabs ''c'' ''a'' threeTabs) ! 1 = tabs threeTabs ! 0 \<and>
   reorderTabs ''a'' ''z'' threeTabs = threeTabs \<and>
   tabs (reorderTabs ''a'' ''a'' threeTabs) = tabs threeTabs \<and>
   activeTabId (reorderTabs ''a'' ''b'' threeTabs) = Some ''c''"
proof -
  have ia: "findIndex (\<lambda>t. tab_id t = ''a'') (tabs threeTabs) = 0"
    and ib: "findIndex (\<lambda>t. tab_id t = ''b'') (tabs threeTabs) = 1"
    and ic: "findIndex (\<lambda>t. tab_id t = ''c'') (tabs threeTabs) = 2"
    by (simp_all add: threeTabs_def sample_defs)
  have m: "''a'' \<in> tab_id ` set (tabs threeTabs)" "''b'' \<in> tab_id ` set (tabs threeTabs)"
    "''c'' \<in> tab_id ` set (tabs threeTabs)" "''z'' \<notin> tab_id ` set (tabs threeTabs)"
    by (simp_all add: threeTabs_def sample_defs)
  have act: "activeTabId threeTabs = Some ''c''"
    by (simp add: threeTabs_def sample_defs)
  show ?thesis
    using reorderTabs_moves_to_target_index [of "''a''" "''b''" threeTabs]
      reorderTabs_moves_to_target_index [of "''c''" "''a''" threeTabs]
      reorderTabs_moves_to_target_index [of "''a''" "''z''" threeTabs]
      m act
    by (simp add: ia ib ic Let_def)
qed

text \<open>
  The claim as stated puts the moved record directly before the target. Dragging the
  first of three tabs onto the second leaves it directly after the second.
\<close>

theorem reorderTabs_rightwards_counterexample:
  "map tab_id (tabs threeTabs) = [''a'', ''b'', ''c''] \<and>
   map tab_id (tabs (reorderTabs ''a'' ''b'' threeTabs)) = [''b'', ''a'', ''c'']"
  by (simp add: threeTabs_def sample_defs reorderTabs_def saveTabsToStorage_def
        splice_delete1_def splice_insert_def splice_start_def Let_def)

section \<open>What each operation leaves alone\<close>

lemma setTimer_fields:
  "tabs (snd (setTimer k s)) = tabs s"
  "activeTabId (snd (setTimer k s)) = activeTabId s"
  "localStorage (snd (setTimer k s)) = localStorage s"
  "autoFetchIntervalId (snd (setTimer k s)) = autoFetchIntervalId s"
  "fetchLog (snd (setTimer k s)) = fetchLog s"
  "isLoadingTabState (snd (setTimer k s)) = isLoadingTabState s"
  "inputs (snd (setTimer k s)) = inputs s"
  "fst (setTimer k s) = Suc (lastTimerId s)"
  "lastTimerId (snd (setTimer k s)) = Suc (lastTimerId s)"
  "timers (snd (setTimer k s)) = timers s @ [(Suc (lastTimerId s), k)]"
  by (simp_all add: setTimer_def Let_def)

lemma saveCurrentTabState_fields:
  "activeTabId (saveCurrentTabState s) = activeTabId s"
  "stockPrice (localStorage (saveCurrentTabState s)) = stockPrice (localStorage s)"
  "timers (saveCurrentTabState s) = timers s"
  "lastTimerId (saveCurrentTabState s) = lastTimerId s"
  "autoFetchIntervalId (saveCurrentTabState s) = autoFetchIntervalId s"
  "fetchLog (saveCurrentTabState s) = fetchLog s"
  "isLoadingTabState (saveCurrentTabState s) = isLoadingTabState s"
  "inputs (saveCurrentTabState s) = inputs s"
  by (simp_all add: saveCurrentTabState_def saveTabsToStorage_def split: option.splits)

lemma loadTabState_fields:
  "tabs (loadTabState i s) = tabs s"
  "activeTabId (loadTabState i s) = activeTabId s"
  "localStorage (loadTabState i s) = localStorage s"
  "autoFetchIntervalId (loadTabState i s) = autoFetchIntervalId s"
  "fetchLog (loadTabState i s) = fetchLog s"
  by (simp_all add: loadTabState_def setTimer_def Let_def split: option.splits)

lemma fetchPriceForActiveTab_fields:
  "tabs (fetchPriceForActiveTab s) = tabs s"
  "activeTabId (fetchPriceForActiveTab s) = activeTabId s"
  "localStorage (fetchPriceForActiveTab s) = localStorage s"
  "autoFetchIntervalId (fetchPriceForActiveTab s) = autoFetchIntervalId s"
  "timers (fetchPriceForActiveTab s) = timers s"
  "lastTimerId (fetchPriceForActiveTab s) = lastTimerId s"
  by (simp_all add: fetchPriceForActiveTab_def Let_def split: option.splits)

lemma hasAutoPrice_cong:
  "tabs s' = tabs s \<Longrightarrow> activeTabId s' = activeTabId s \<Longrightarrow> hasAutoPrice s' = hasAutoPrice s"
  by (simp add: hasAutoPrice_def is_active_def [abs_def])

lemma startAutoFetchInterval_fields:
  "tabs (startAutoFetchInterval s) = tabs s"
  "activeTabId (startAutoFetchInterval s) = activeTabId s"
  "localStorage (startAutoFetchInterval s) = localStorage s"
  by (simp_all add: startAutoFetchInterval_def Let_def setTimer_def clearTimer_fields
        fetchPriceForActiveTab_fields split: prod.splits)

lemma stopAutoFetchInterval_fields:
  "tabs (stopAutoFetchInterval s) = tabs s"
  "activeTabId (stopAutoFetchInterval s) = activeTabId s"
  "localStorage (stopAutoFetchInterval s) = localStorage s"
  "fetchLog (stopAutoFetchInterval s) = fetchLog s"
  by (simp_all add: stopAutoFetchInterval_def clearTimer_fields)

lemma checkAutoFetchInterval_fields:
  "tabs (checkAutoFetchInterval s) = tabs s"
  "activeTabId (checkAutoFetchInterval s) = activeTabId s"
  "localStorage (checkAutoFetchInterval s) = localStorage s"
  by (simp_all add: checkAutoFetchInterval_def startAutoFetchInterval_fields
        stopAutoFetchInterval_fields)

lemma clearCalculatorForm_fields:
  "tabs (clearCalculatorForm s) = tabs s"
  "activeTabId (clearCalculatorForm s) = activeTabId s"
  "localStorage (clearCalculatorForm s) = localStorage s"
  by (simp_all add: clearCalculatorForm_def)

section \<open>Closing a tab\<close>

lemma closeTab_confirmed:
  assumes "length (tabs s) \<noteq> 1"
    and "find (\<lambda>t. tab_id t = i) (tabs s) = Some t"
    and "stockSymbol t \<noteq> []"
  shows "\<exists>s'. closeTab True i s = Inr s' \<and>
              localStorage s' = (localStorage s)
                \<lparr> stockPrice := (stockPrice (localStorage s))(toUpperCase (stockSymbol t) := None),
                  stockTabs := Some (tabs s'),
                  stored_activeTabId := stored_activeTabId (localStorage s') \<rparr> \<and>
              tabs s' = splice_delete1 (tabs s) (findIndex (\<lambda>t. tab_id t = i) (tabs s))"
proof -
  let ?k = "findIndex (\<lambda>t. tab_id t = i) (tabs s)"
  have f: "?k \<noteq> - 1"
    using assms(2) by (simp add: find_findIndex split: if_splits)
  then obtain k where k: "?k = int k"
    using findIndex_nonneg [OF f] by (metis nonneg_int_cases)
  have kl: "k < length (tabs s)"
    using findIndex_nat_less [OF f] k by simp
  have len: "2 \<le> length (tabs s)"
    using assms(1) kl by linarith
  have d: "splice_delete1 (tabs s) (int k) = take k (tabs s) @ drop (Suc k) (tabs s)"
    using kl by (rule splice_delete1_nat)
  have n: "nat (max 0 (int k - 1)) = k - 1"
    by linarith
  have b: "\<not> k + (length (tabs s) - Suc k) \<le> k - Suc 0"
    using kl len by linarith
  show ?thesis
    using assms b kl
    by (simp add: closeTab_def Let_def k d n checkAutoFetchInterval_fields
          saveTabsToStorage_def loadTabState_fields)
qed

text \<open>
  C5, as the code has it. A confirmed close of a tab with a non-empty symbol always removes
  the cache entry \<open>stockPrice_<SYMBOL>\<close> of that symbol in upper case, whether or not
  another tab still uses the symbol; no other cache entry is touched. A declined
  confirmation changes nothing.
\<close>

theorem closeTab_evicts_symbol:
  assumes "length (tabs s) \<noteq> 1"
    and "find (\<lambda>t. tab_id t = i) (tabs s) = Some t"
    and "stockSymbol t \<noteq> []"
  shows "(\<exists>s'. closeTab True i s = Inr s' \<and>
               stockPrice (localStorage s') =
                 (stockPrice (localStorage s))(toUpperCase (stockSymbol t) := None)) \<and>
         closeTab False i s = Inr s"
proof -
  obtain s' where "closeTab True i s = Inr s'"
    and "localStorage s' = (localStorage s)
                \<lparr> stockPrice := (stockPrice (localStorage s))(toUpperCase (stockSymbol t) := None),
                  stockTabs := Some (tabs s'),
                  stored_activeTabId := stored_activeTabId (localStorage s') \<rparr>"
    using closeTab_confirmed [OF assms] by blast
  moreover from this(2)
  have "stockPrice (localStorage s') =
          (stockPrice (localStorage s))(toUpperCase (stockSymbol t) := None)"
    by (metis storage.select_convs(3) storage.surjective storage.update_convs(1,2,3))
  moreover have "closeTab False i s = Inr s"
    using assms by (simp add: closeTab_def Let_def)
  ultimately show ?thesis by blast
qed

lemma toUpperCase_aapl: "toUpperCase ''aapl'' = ''AAPL''"
  by (simp add: toUpperCase_def upper_char_def)

theorem closeTab_evicts_symbol_witness:
  "length (tabs sharedSymbolExample) \<noteq> 1 \<and>
   find (\<lambda>t. tab_id t = ''a'') (tabs sharedSymbolExample) = Some (sampleTab ''a'' ''aapl'') \<and>
   stockSymbol (sampleTab ''a'' ''aapl'') \<noteq> [] \<and>
   stockPrice (localStorage sharedSymbolExample) ''AAPL'' = Some (sampleQuote ''AAPL'' 1000) \<and>
   (\<exists>s'. closeTab True ''a'' sharedSymbolExample = Inr s' \<and>
         stockPrice (localStorage s') ''AAPL'' = None) \<and>
   closeTab False ''a'' sharedSymbolExample = Inr sharedSymbolExample"
proof -
  have l: "length (tabs sharedSymbolExample) \<noteq> 1"
    by (simp add: sharedSymbolExample_def sampleApp_def)
  have f: "find (\<lambda>t. tab_id t = ''a'') (tabs sharedSymbolExample) = Some (sampleTab ''a'' ''aapl'')"
    by (simp add: sharedSymbolExample_def sampleApp_def sampleTab_def newTab_def)
  have y: "stockSymbol (sampleTab ''a'' ''aapl'') \<noteq> []"
    by (simp add: sampleTab_def)
  have c: "stockPrice (localStorage sharedSymbolExample) ''AAPL'' = Some (sampleQuote ''AAPL'' 1000)"
    by (simp add: sharedSymbolExample_def sampleApp_def)
  have u: "toUpperCase (stockSymbol (sampleTab ''a'' ''aapl'')) = ''AAPL''"
    by (simp add: sampleTab_def toUpperCase_aapl)
  show ?thesis
    using closeTab_evicts_symbol [OF l f y] l f y c by (auto simp: u)
qed

text \<open>
  The claim as stated keeps the entry when another remaining tab shares the symbol. With
  two tabs on the same symbol, closing one removes the entry although the other remains.
\<close>

theorem closeTab_shared_symbol_counterexample:
  "stockPrice (localStorage sharedSymbolExample) ''AAPL'' \<noteq> None \<and>
   \<not> isl (closeTab True ''a'' sharedSymbolExample) \<and>
   map stockSymbol (tabs (projr (closeTab True ''a'' sharedSymbolExample))) = [''AAPL''] \<and>
   stockPrice (localStorage (projr (closeTab True ''a'' sharedSymbolExample))) ''AAPL'' = None"
proof -
  have t: "tabs sharedSymbolExample = [sampleTab ''a'' ''aapl'', sampleTab ''b'' ''AAPL'']"
    by (simp add: sharedSymbolExample_def sampleApp_def)
  have l: "length (tabs sharedSymbolExample) \<noteq> 1"
    by (simp add: t)
  have f: "find (\<lambda>t. tab_id t = ''a'') (tabs sharedSymbolExample) = Some (sampleTab ''a'' ''aapl'')"
    by (simp add: t sampleTab_def newTab_def)
  have y: "stockSymbol (sampleTab ''a'' ''aapl'') \<noteq> []"
    by (simp add: sampleTab_def)
  have i: "findIndex (\<lambda>t. tab_id t = ''a'') (tabs sharedSymbolExample) = 0"
    by (simp add: t sampleTab_def newTab_def)
  obtain s' where r: "closeTab True ''a'' sharedSymbolExample = Inr s'"
    and st: "localStorage s' = (localStorage sharedSymbolExample)
                \<lparr> stockPrice := (stockPrice (localStorage sharedSymbolExample))
                     (toUpperCase (stockSymbol (sampleTab ''a'' ''aapl'')) := None),
                  stockTabs := Some (tabs s'),
                  stored_activeTabId := stored_activeTabId (localStorage s') \<rparr>"
    and ts: "tabs s' = splice_delete1 (tabs sharedSymbolExample)
                         (findIndex (\<lambda>t. tab_id t = ''a'') (tabs sharedSymbolExample))"
    using closeTab_confirmed [OF l f y] by blast
  have "stockPrice (localStorage s') ''AAPL'' = None"
    by (subst st) (simp add: sampleTab_def toUpperCase_aapl)
  moreover have "map stockSymbol (tabs s') = [''AAPL'']"
    by (simp add: ts i) (simp add: t splice_delete1_def splice_start_def sampleTab_def)
  moreover have "stockPrice (localStorage sharedSymbolExample) ''AAPL'' \<noteq> None"
    by (simp add: sharedSymbolExample_def sampleApp_def)
  ultimately show ?thesis
    by (simp add: r)
qed

section \<open>Active-tab poller\<close>

lemma liveIntervals_clearTimer:
  "liveIntervals (clearTimer h s) = filter (\<lambda>x. x \<noteq> h) (liveIntervals s)"
  by (simp add: liveIntervals_def clearTimer_def filter_map o_def conj_commute)

lemma liveIntervals_setTimer:
  "liveIntervals (snd (setTimer k s)) =
     liveIntervals s @ (if k = AutoFetchTick then [Suc (lastTimerId s)] else [])"
  by (simp add: liveIntervals_def setTimer_def Let_def)

lemma liveIntervals_cong: "timers s' = timers s \<Longrightarrow> liveIntervals s' = liveIntervals s"
  by (simp add: liveIntervals_def)

lemma poller_ok_idle:
  "poller_ok s \<Longrightarrow> \<not> truthy_id (autoFetchIntervalId s) \<Longrightarrow> liveIntervals s = []"
  by (cases "liveIntervals s") (auto simp: poller_ok_def truthy_id_def split: option.splits)

lemma poller_ok_clear:
  "poller_ok s \<Longrightarrow> autoFetchIntervalId s = Some h \<Longrightarrow> liveIntervals (clearTimer h s) = []"
  by (auto simp: liveIntervals_clearTimer poller_ok_def filter_empty_conv)

lemma poller_ok_length: "poller_ok s \<Longrightarrow> length (liveIntervals s) \<le> 1"
proof -
  assume ok: "poller_ok s"
  have d: "distinct (liveIntervals s)"
    using ok by (simp add: poller_ok_def liveIntervals_def distinct_map_filter)
  show ?thesis
  proof (cases "autoFetchIntervalId s")
    case None
    then have "liveIntervals s = []"
      using ok by (cases "liveIntervals s") (auto simp: poller_ok_def)
    then show ?thesis by simp
  next
    case (Some h)
    then have "set (liveIntervals s) \<subseteq> {h}"
      using ok by (auto simp: poller_ok_def)
    then have "card (set (liveIntervals s)) \<le> card {h}"
      by (intro card_mono) simp_all
    then have "card (set (liveIntervals s)) \<le> 1"
      by simp
    then show ?thesis
      using d by (simp add: distinct_card)
  qed
qed

lemma poller_ok_timers_only:
  assumes "poller_ok s" and "timers s' = timers s" and "lastTimerId s' = lastTimerId s"
    and "autoFetchIntervalId s' = autoFetchIntervalId s"
  shows "poller_ok s'"
  using assms by (simp add: poller_ok_def liveIntervals_def)

lemma poller_ok_clearTimer_other:
  assumes "poller_ok s"
  shows "poller_ok (clearTimer h s)"
  using assms
  by (auto simp: poller_ok_def liveIntervals_clearTimer clearTimer_fields distinct_map_filter)

lemma poller_ok_setTimer_other:
  assumes "poller_ok s" and "k \<noteq> AutoFetchTick"
  shows "poller_ok (snd (setTimer k s))"
  using assms
  by (fastforce simp: poller_ok_def liveIntervals_setTimer setTimer_fields)

lemma start_when_wanted:
  assumes "poller_ok s" and "hasAutoPrice s"
  shows "autoFetchIntervalId (startAutoFetchInterval s) = Some (Suc (lastTimerId s)) \<and>
         liveIntervals (startAutoFetchInterval s) = [Suc (lastTimerId s)] \<and>
         fetchLog (startAutoFetchInterval s) = fetchLog (fetchPriceForActiveTab s) \<and>
         poller_ok (startAutoFetchInterval s)"
proof -
  define s1 where
    "s1 = (if truthy_id (autoFetchIntervalId s) then clearTimer (the (autoFetchIntervalId s)) s else s)"
  have f1: "tabs s1 = tabs s" "activeTabId s1 = activeTabId s" "lastTimerId s1 = lastTimerId s"
    "fetchLog s1 = fetchLog s"
    by (simp_all add: s1_def clearTimer_fields)
  have h1: "hasAutoPrice s1"
    using assms(2) hasAutoPrice_cong [OF f1(1,2)] by simp
  have l1: "liveIntervals s1 = []"
  proof (cases "truthy_id (autoFetchIntervalId s)")
    case True
    then obtain h where "autoFetchIntervalId s = Some h"
      by (auto simp: truthy_id_def split: option.splits)
    then show ?thesis
      using assms(1) True by (simp add: s1_def poller_ok_clear)
  next
    case False
    then show ?thesis
      using assms(1) by (simp add: s1_def poller_ok_idle)
  qed
  have ok1: "distinct (map fst (timers s1))" "\<forall>h \<in> set (map fst (timers s1)). h \<le> lastTimerId s"
    using assms(1)
    by (auto simp: s1_def poller_ok_def clearTimer_fields distinct_map_filter)
  define s2 where "s2 = snd (setTimer AutoFetchTick (fetchPriceForActiveTab s1))"
  have e: "startAutoFetchInterval s = s2\<lparr> autoFetchIntervalId := Some (Suc (lastTimerId s)) \<rparr>"
    using h1 f1
    by (simp add: startAutoFetchInterval_def s1_def [symmetric] s2_def Let_def setTimer_def
          fetchPriceForActiveTab_fields split: prod.splits)
  have t2: "timers s2 = timers s1 @ [(Suc (lastTimerId s), AutoFetchTick)]"
    "lastTimerId s2 = Suc (lastTimerId s)"
    by (simp_all add: s2_def setTimer_fields fetchPriceForActiveTab_fields f1)
  have l2: "liveIntervals s2 = [Suc (lastTimerId s)]"
    using l1 liveIntervals_cong [of "fetchPriceForActiveTab s1" s1]
    by (simp add: s2_def liveIntervals_setTimer fetchPriceForActiveTab_fields f1)
  have fl: "fetchLog s2 = fetchLog (fetchPriceForActiveTab s)"
    using f1 by (simp add: s2_def setTimer_fields fetchPriceForActiveTab_def is_active_def [abs_def]
        Let_def split: option.splits)
  have live: "liveIntervals (startAutoFetchInterval s) = [Suc (lastTimerId s)]"
    using l2 liveIntervals_cong [of "s2\<lparr> autoFetchIntervalId := Some (Suc (lastTimerId s)) \<rparr>" s2]
    by (simp add: e)
  have "poller_ok (startAutoFetchInterval s)"
    unfolding poller_ok_def live using ok1 by (fastforce simp: e t2)
  then show ?thesis
    using live fl by (simp add: e)
qed

lemma stop_when_running:
  assumes "poller_ok s" and "truthy_id (autoFetchIntervalId s)"
  shows "autoFetchIntervalId (stopAutoFetchInterval s) = None \<and>
         liveIntervals (stopAutoFetchInterval s) = [] \<and>
         fetchLog (stopAutoFetchInterval s) = fetchLog s \<and>
         poller_ok (stopAutoFetchInterval s)"
proof -
  obtain h where h: "autoFetchIntervalId s = Some h"
    using assms(2) by (auto simp: truthy_id_def split: option.splits)
  have e: "stopAutoFetchInterval s = (clearTimer h s)\<lparr> autoFetchIntervalId := None \<rparr>"
    using assms(2) h by (simp add: stopAutoFetchInterval_def)
  have l: "liveIntervals (stopAutoFetchInterval s) = []"
    using poller_ok_clear [OF assms(1) h]
      liveIntervals_cong [of "(clearTimer h s)\<lparr> autoFetchIntervalId := None \<rparr>" "clearTimer h s"]
    by (simp add: e)
  have "poller_ok (stopAutoFetchInterval s)"
    unfolding poller_ok_def l using assms(1)
    by (auto simp: e poller_ok_def clearTimer_fields distinct_map_filter)
  then show ?thesis
    using l by (simp add: e clearTimer_fields)
qed

lemma fetchPriceForActiveTab_request:
  assumes "hasAutoPrice s"
  shows "\<exists>t. find (is_active s) (tabs s) = Some t \<and>
             fetchLog (fetchPriceForActiveTab s) =
               fetchLog s @ (if toUpperCase (trim (stockSymbol t)) = [] then []
                             else [toUpperCase (trim (stockSymbol t))])"
  using assms
  by (auto simp: hasAutoPrice_def fetchPriceForActiveTab_def Let_def split: option.splits)

lemma poller_ok_check:
  assumes "poller_ok s"
  shows "poller_ok (checkAutoFetchInterval s)"
  using assms start_when_wanted [of s] stop_when_running [of s]
  by (auto simp: checkAutoFetchInterval_def)

lemma poller_ok_saveTabsToStorage: "poller_ok s \<Longrightarrow> poller_ok (saveTabsToStorage s)"
  by (rule poller_ok_timers_only) (simp_all add: saveTabsToStorage_fields)

lemma poller_ok_saveCurrentTabState: "poller_ok s \<Longrightarrow> poller_ok (saveCurrentTabState s)"
  by (rule poller_ok_timers_only) (simp_all add: saveCurrentTabState_fields)

lemma poller_ok_loadTabState: "poller_ok s \<Longrightarrow> poller_ok (loadTabState i s)"
proof (cases "find (\<lambda>t. tab_id t = i) (tabs s)")
  case None
  assume "poller_ok s"
  with None show ?thesis by (simp add: loadTabState_def)
next
  case (Some t)
  assume ok: "poller_ok s"
  have "poller_ok (snd (setTimer ClearLoadingFlag
          (s\<lparr> isLoadingTabState := True,
              inputs := \<lparr> in_stockSymbol = stockSymbol t, in_entryPrice = entryPrice t,
                          in_targetPrice = targetPrice t, in_quantity = quantity t,
                          in_tpPercent = tpPercent t, in_slPercent = slPercent t \<rparr>,
              autoPriceEnabled := tab_autoPriceEnabled t,
              calculationMode := (if tab_calculationMode t \<noteq> [] then tab_calculationMode t
                                  else calculationMode s) \<rparr>)))"
    by (rule poller_ok_setTimer_other, rule poller_ok_timers_only [OF ok]) simp_all
  with Some show ?thesis by (simp add: loadTabState_def)
qed

lemma poller_ok_switchTab: "poller_ok s \<Longrightarrow> poller_ok (switchTab i s)"
proof -
  assume ok: "poller_ok s"
  define s1 where "s1 = (if truthy_str (activeTabId s) then saveCurrentTabState s else s)"
  have ok1: "poller_ok s1"
    using ok by (simp add: s1_def poller_ok_saveCurrentTabState)
  have "poller_ok (s1\<lparr> activeTabId := Some i,
                       localStorage := (localStorage s1)\<lparr> stored_activeTabId := Some i \<rparr> \<rparr>)"
    by (rule poller_ok_timers_only [OF ok1]) simp_all
  then show ?thesis
    using ok by (simp add: switchTab_def Let_def s1_def [symmetric] poller_ok_check
        poller_ok_loadTabState)
qed

lemma poller_ok_closeTab:
  assumes "poller_ok s" and "closeTab c i s = Inr s'"
  shows "poller_ok s'"
proof -
  have a: "poller_ok (x\<lparr> alerts := y \<rparr>)" if "poller_ok x" for x :: app and y
    by (rule poller_ok_timers_only [OF that]) simp_all
  have b: "poller_ok (x\<lparr> localStorage := y \<rparr>)" if "poller_ok x" for x :: app and y
    by (rule poller_ok_timers_only [OF that]) simp_all
  have t: "poller_ok (x\<lparr> tabs := y \<rparr>)" if "poller_ok x" for x :: app and y
    by (rule poller_ok_timers_only [OF that]) simp_all
  have p: "poller_ok (x\<lparr> activeTabId := y, localStorage := z \<rparr>)" if "poller_ok x"
    for x :: app and y z
    by (rule poller_ok_timers_only [OF that]) simp_all
  show ?thesis
    using assms
    by (auto simp: closeTab_def Let_def a b t p poller_ok_check poller_ok_saveTabsToStorage
        poller_ok_loadTabState split: if_splits)
qed

text \<open>
  The poller step. Let the poller be consistent (\<open>poller_ok\<close>) before
  \<open>checkAutoFetchInterval\<close> runs.
  If the active record wants polling and the poller is idle, the fetch routine runs at once
  and one interval is started. If the record does not want polling and the poller runs,
  the interval is cancelled. If the record wants polling and the poller runs, the old
  interval is cancelled first, then the fetch routine runs at once and a new interval is
  started. The fetch routine requests the active record's symbol, trimmed and in upper
  case. Afterwards at most one poll interval is live and the poller is consistent again, as
  it is after a whole tab switch or tab close.
\<close>

theorem checkAutoFetchInterval_step:
  assumes "poller_ok s"
  shows "let s' = checkAutoFetchInterval s; n = Suc (lastTimerId s)
         in (hasAutoPrice s \<and> \<not> truthy_id (autoFetchIntervalId s) \<longrightarrow>
               liveIntervals s = [] \<and>
               autoFetchIntervalId s' = Some n \<and> liveIntervals s' = [n] \<and>
               fetchLog s' = fetchLog (fetchPriceForActiveTab s)) \<and>
            (\<not> hasAutoPrice s \<and> truthy_id (autoFetchIntervalId s) \<longrightarrow>
               autoFetchIntervalId s' = None \<and> liveIntervals s' = [] \<and>
               fetchLog s' = fetchLog s) \<and>
            (hasAutoPrice s \<and> truthy_id (autoFetchIntervalId s) \<longrightarrow>
               liveIntervals (clearTimer (the (autoFetchIntervalId s)) s) = [] \<and>
               autoFetchIntervalId s' = Some n \<and> liveIntervals s' = [n] \<and>
               fetchLog s' = fetchLog (fetchPriceForActiveTab s)) \<and>
            (hasAutoPrice s \<longrightarrow>
               (\<exists>t. find (is_active s) (tabs s) = Some t \<and>
                    fetchLog (fetchPriceForActiveTab s) =
                      fetchLog s @ (if toUpperCase (trim (stockSymbol t)) = [] then []
                                    else [toUpperCase (trim (stockSymbol t))]))) \<and>
            length (liveIntervals s') \<le> 1 \<and> poller_ok s' \<and>
            poller_ok (switchTab i s) \<and>
            (\<forall>s''. closeTab c i s = Inr s'' \<longrightarrow> poller_ok s'')"
proof -
  have ok: "poller_ok (checkAutoFetchInterval s)"
    using assms by (rule poller_ok_check)
  have idle: "liveIntervals s = []" if "\<not> truthy_id (autoFetchIntervalId s)"
    using assms that by (rule poller_ok_idle)
  have cleared: "liveIntervals (clearTimer (the (autoFetchIntervalId s)) s) = []"
    if tr: "truthy_id (autoFetchIntervalId s)"
  proof -
    obtain h where "autoFetchIntervalId s = Some h"
      using tr by (auto simp: truthy_id_def split: option.splits)
    then show ?thesis
      using assms by (simp add: poller_ok_clear)
  qed
  show ?thesis
    unfolding Let_def
    using ok poller_ok_length [OF ok] idle cleared start_when_wanted [OF assms]
      stop_when_running [OF assms] fetchPriceForActiveTab_request [of s]
      poller_ok_switchTab [OF assms] poller_ok_closeTab [OF assms]
    by (auto simp: checkAutoFetchInterval_def)
qed

lemma toUpperCase_msft: "toUpperCase ''msft'' = ''MSFT''"
  by (simp add: toUpperCase_def upper_char_def)

lemma trim_msft: "trim ''msft'' = ''msft''"
  by (simp add: trim_def is_space_def)

theorem checkAutoFetchInterval_step_witness:
  "poller_ok pollingExample \<and>
   hasAutoPrice pollingExample \<and> truthy_id (autoFetchIntervalId pollingExample) \<and>
   liveIntervals pollingExample = [1] \<and>
   liveIntervals (clearTimer 1 pollingExample) = [] \<and>
   autoFetchIntervalId (checkAutoFetchInterval pollingExample) = Some 2 \<and>
   liveIntervals (checkAutoFetchInterval pollingExample) = [2] \<and>
   poller_ok (pollingExample\<lparr> activeTabId := Some ''c'' \<rparr>) \<and>
   \<not> hasAutoPrice (pollingExample\<lparr> activeTabId := Some ''c'' \<rparr>) \<and>
   autoFetchIntervalId (checkAutoFetchInterval (pollingExample\<lparr> activeTabId := Some ''c'' \<rparr>)) = None \<and>
   liveIntervals (checkAutoFetchInterval (pollingExample\<lparr> activeTabId := Some ''c'' \<rparr>)) = [] \<and>
   poller_ok (pollingExample\<lparr> activeTabId := Some ''b'', autoFetchIntervalId := None, timers := [] \<rparr>) \<and>
   hasAutoPrice (pollingExample\<lparr> activeTabId := Some ''b'', autoFetchIntervalId := None, timers := [] \<rparr>) \<and>
   liveIntervals (checkAutoFetchInterval
     (pollingExample\<lparr> activeTabId := Some ''b'', autoFetchIntervalId := None, timers := [] \<rparr>)) = [2] \<and>
   fetchLog (checkAutoFetchInterval
     (pollingExample\<lparr> activeTabId := Some ''b'', autoFetchIntervalId := None, timers := [] \<rparr>))
     = [''AAPL'', ''MSFT'']"
proof -
  let ?c = "pollingExample\<lparr> activeTabId := Some ''c'' \<rparr>"
  let ?b = "pollingExample\<lparr> activeTabId := Some ''b'', autoFetchIntervalId := None, timers := [] \<rparr>"
  have ok: "poller_ok pollingExample" "poller_ok ?c" "poller_ok ?b"
    by (simp_all add: poller_ok_def liveIntervals_def pollingExample_def sampleApp_def)
  have h: "hasAutoPrice pollingExample" "\<not> hasAutoPrice ?c" "hasAutoPrice ?b"
    by (simp_all add: hasAutoPrice_def is_active_def pollingExample_def sample_defs)
  have t: "truthy_id (autoFetchIntervalId pollingExample)" "truthy_id (autoFetchIntervalId ?c)"
    "\<not> truthy_id (autoFetchIntervalId ?b)"
    by (simp_all add: truthy_id_def pollingExample_def sampleApp_def)
  have v: "autoFetchIntervalId pollingExample = Some 1" "lastTimerId pollingExample = 1"
    "liveIntervals pollingExample = [1]" "fetchLog pollingExample = [''AAPL'']"
    by (simp_all add: liveIntervals_def pollingExample_def sampleApp_def)
  have fb: "find (is_active ?b) (tabs pollingExample)
              = Some ((sampleTab ''b'' ''msft'')\<lparr> tab_autoPriceEnabled := True \<rparr>)"
    by (simp add: is_active_def pollingExample_def sample_defs)
  have r1: "liveIntervals (clearTimer 1 pollingExample) = [] \<and>
            autoFetchIntervalId (checkAutoFetchInterval pollingExample) = Some 2 \<and>
            liveIntervals (checkAutoFetchInterval pollingExample) = [2]"
    using h(1) t(1) checkAutoFetchInterval_step [OF ok(1), of "''a''" True]
    by (simp add: Let_def v)
  have r2: "autoFetchIntervalId (checkAutoFetchInterval ?c) = None \<and>
            liveIntervals (checkAutoFetchInterval ?c) = []"
    using h(2) t(2) checkAutoFetchInterval_step [OF ok(2), of "''a''" True]
    by (simp add: Let_def)
  have r3: "liveIntervals (checkAutoFetchInterval ?b) = [2] \<and>
            fetchLog (checkAutoFetchInterval ?b) = [''AAPL'', ''MSFT'']"
    using h(3) t(3) checkAutoFetchInterval_step [OF ok(3), of "''a''" True]
    by (auto simp add: Let_def v fb sampleTab_def toUpperCase_msft trim_msft)
  show ?thesis
    using ok h t v r1 r2 r3 by simp
qed

section \<open>The store invariant under sequences of operations\<close>

lemma map_tab_id_update_first:
  "(\<And>t. tab_id (f t) = tab_id t) \<Longrightarrow> map tab_id (update_first P f xs) = map tab_id xs"
  by (induction xs) auto

lemma length_update_first: "length (update_first P f xs) = length xs"
  by (induction xs) auto

lemma saveCurrentTabState_ids:
  "map tab_id (tabs (saveCurrentTabState s)) = map tab_id (tabs s)"
  by (simp add: saveCurrentTabState_def saveTabsToStorage_fields map_tab_id_update_first
        split: option.splits)

lemma store_ok_cong:
  "map tab_id (tabs s') = map tab_id (tabs s) \<Longrightarrow> activeTabId s' = activeTabId s \<Longrightarrow>
   store_ok s' = store_ok s"
  by (simp add: store_ok_def)

lemma store_ok_nonempty: "store_ok s \<Longrightarrow> tabs s \<noteq> []"
  by (auto simp: store_ok_def)

lemma store_ok_active:
  "store_ok s \<Longrightarrow> \<exists>a. activeTabId s = Some a \<and> a \<in> set (map tab_id (tabs s))"
  by (auto simp: store_ok_def)

lemma store_ok_addNewTab:
  assumes "store_ok s" and "i \<notin> set (map tab_id (tabs s))"
  shows "store_ok (addNewTab i now s)"
proof (cases "MAX_TABS \<le> length (tabs s)")
  case True
  then show ?thesis
    using assms(1) by (simp add: addNewTab_def store_ok_def)
next
  case False
  define s1 where "s1 = (if truthy_str (activeTabId s) then saveCurrentTabState s else s)"
  have ids: "map tab_id (tabs s1) = map tab_id (tabs s)"
    by (simp add: s1_def saveCurrentTabState_ids)
  have "distinct (map tab_id (tabs s1) @ [i])"
    using assms by (simp add: ids store_ok_def)
  then show ?thesis
    using False
    by (simp add: addNewTab_def Let_def s1_def [symmetric] store_ok_def
          clearCalculatorForm_fields saveTabsToStorage_fields newTab_def)
qed

lemma distinct_removed:
  assumes "distinct (map f xs)"
  shows "distinct (map f (take k xs @ drop (Suc k) xs))"
proof (cases "k < length xs")
  case True
  have "distinct (map f (take k xs @ xs ! k # drop (Suc k) xs))"
    using assms by (simp only: id_take_nth_drop [OF True, symmetric])
  then show ?thesis by auto
next
  case False
  then show ?thesis using assms by simp
qed

lemma removed_keeps_others:
  assumes "k < length xs" and "x \<in> set xs" and "f x \<noteq> f (xs ! k)"
  shows "f x \<in> set (map f (take k xs @ drop (Suc k) xs))"
proof -
  have "x \<in> set (take k xs @ xs ! k # drop (Suc k) xs)"
    using assms(2) by (simp only: id_take_nth_drop [OF assms(1), symmetric])
  then show ?thesis
    using assms(3) by auto
qed

lemma store_ok_closeTab:
  assumes "store_ok s" and "i \<in> set (map tab_id (tabs s))"
  shows "\<exists>s'. closeTab c i s = Inr s' \<and> store_ok s' \<and> length (tabs s') \<le> length (tabs s)"
proof (cases "length (tabs s) = 1")
  case True
  then show ?thesis
    using assms(1) by (simp add: closeTab_def store_ok_def)
next
  case False
  let ?k = "findIndex (\<lambda>t. tab_id t = i) (tabs s)"
  have f: "?k \<noteq> - 1"
    using assms(2) by (auto simp: findIndex_none_iff)
  then obtain k where k: "?k = int k"
    using findIndex_nonneg [OF f] by (metis nonneg_int_cases)
  have kl: "k < length (tabs s)"
    using findIndex_nat_less [OF f] k by simp
  have ki: "tab_id (tabs s ! k) = i"
    using findIndex_nth [OF f] k by simp
  have len: "2 \<le> length (tabs s)"
    using False kl by linarith
  define r where "r = take k (tabs s) @ drop (Suc k) (tabs s)"
  have d: "splice_delete1 (tabs s) (int k) = r"
    unfolding r_def using kl by (rule splice_delete1_nat)
  have lr: "length r = length (tabs s) - 1"
    unfolding r_def using kl by (rule removed_length)
  have dr: "distinct (map tab_id r)"
    unfolding r_def using assms(1) by (simp only: store_ok_def distinct_removed)
  have n: "nat (max 0 (int k - 1)) = k - 1"
    by linarith
  have b: "\<not> length r \<le> k - 1"
    using kl len lr by linarith
  have fnd: "find (\<lambda>t. tab_id t = i) (tabs s) = Some (tabs s ! k)"
    using f k by (simp add: find_findIndex)
  show ?thesis
  proof (cases "stockSymbol (tabs s ! k) \<noteq> [] \<and> \<not> c")
    case True
    then show ?thesis
      using False assms(1) fnd by (simp add: closeTab_def Let_def)
  next
    case go: False
    show ?thesis
    proof (cases "activeTabId s = Some i")
      case True
      have "r ! (k - 1) \<in> set r"
        using b by simp
      then have "store_ok (s\<lparr> tabs := r, activeTabId := Some (tab_id (r ! (k - 1))) \<rparr>)"
        using dr by (auto simp: store_ok_def)
      then have "store_ok (checkAutoFetchInterval (saveTabsToStorage
                   (loadTabState (tab_id (r ! (k - 1))) (x\<lparr> tabs := r,
                      activeTabId := Some (tab_id (r ! (k - 1))), localStorage := y \<rparr>))))"
        for x :: app and y
        by (simp add: store_ok_def checkAutoFetchInterval_fields saveTabsToStorage_fields
              loadTabState_fields)
      then show ?thesis
        using False go True fnd b lr
        by (auto simp: closeTab_def Let_def k d n checkAutoFetchInterval_fields
              saveTabsToStorage_fields loadTabState_fields)
    next
      case other: False
      obtain a where a: "activeTabId s = Some a" "a \<in> set (map tab_id (tabs s))"
        using store_ok_active [OF assms(1)] by blast
      then obtain x where x: "x \<in> set (tabs s)" "tab_id x = a"
        by auto
      have "tab_id x \<noteq> tab_id (tabs s ! k)"
        using other a(1) x(2) ki by simp
      then have "tab_id x \<in> set (map tab_id r)"
        unfolding r_def using kl x(1) by (intro removed_keeps_others)
      then have "Some a \<in> Some ` set (map tab_id r)"
        using x(2) by auto
      then have "store_ok (checkAutoFetchInterval (saveTabsToStorage (y\<lparr> tabs := r \<rparr>)))"
        if "activeTabId y = Some a" for y :: app
        using dr that
        by (simp add: store_ok_def checkAutoFetchInterval_fields saveTabsToStorage_fields)
      then show ?thesis
        using False go other fnd a(1) lr
        by (auto simp: closeTab_def Let_def k d n checkAutoFetchInterval_fields
              saveTabsToStorage_fields)
    qed
  qed
qed

lemma store_ok_reorderTabs:
  assumes "store_ok s"
  shows "store_ok (reorderTabs a b s) \<and> length (tabs (reorderTabs a b s)) = length (tabs s)"
proof (cases "findIndex (\<lambda>t. tab_id t = a) (tabs s) = - 1 \<or>
              findIndex (\<lambda>t. tab_id t = b) (tabs s) = - 1")
  case True
  then show ?thesis
    using assms by (auto simp: reorderTabs_def Let_def)
next
  case False
  then have fa: "findIndex (\<lambda>t. tab_id t = a) (tabs s) \<noteq> - 1"
    and fb: "findIndex (\<lambda>t. tab_id t = b) (tabs s) \<noteq> - 1"
    by simp_all
  obtain i j where ii: "findIndex (\<lambda>t. tab_id t = a) (tabs s) = int i"
    and jj: "findIndex (\<lambda>t. tab_id t = b) (tabs s) = int j"
    using findIndex_nonneg [OF fa] findIndex_nonneg [OF fb] by (metis nonneg_int_cases)
  have i: "i < length (tabs s)"
    using findIndex_nat_less [OF fa] ii by simp
  define r where "r = take i (tabs s) @ drop (Suc i) (tabs s)"
  have t: "tabs (reorderTabs a b s) = take j r @ tabs s ! i # drop j r"
    unfolding r_def by (rule reorderTabs_found [OF ii jj])
  have tr: "set (take j r) \<union> set (drop j r) = set r"
    by (simp only: set_append [symmetric] append_take_drop_id)
  have "set (take j r @ tabs s ! i # drop j r) = (set (take j r) \<union> set (drop j r)) \<union> {tabs s ! i}"
    by auto
  then have "set (take j r @ tabs s ! i # drop j r) = set r \<union> {tabs s ! i}"
    by (simp only: tr)
  also have "\<dots> = set (take i (tabs s) @ tabs s ! i # drop (Suc i) (tabs s))"
    by (auto simp: r_def)
  also have "\<dots> = set (tabs s)"
    using i by (simp only: id_take_nth_drop [symmetric])
  finally have st: "set (tabs (reorderTabs a b s)) = set (tabs s)"
    by (simp only: t)
  have "length (take j r @ tabs s ! i # drop j r) = Suc (length r)"
    by simp
  then have ln: "length (tabs (reorderTabs a b s)) = length (tabs s)"
    using i by (simp only: t) (simp add: r_def)
  have di: "distinct (tabs s)" "inj_on tab_id (set (tabs s))"
    using assms by (simp_all add: store_ok_def distinct_map)
  have "card (set (tabs (reorderTabs a b s))) = length (tabs (reorderTabs a b s))"
    using di(1) by (simp only: st ln distinct_card)
  then have "distinct (tabs (reorderTabs a b s))"
    by (rule card_distinct)
  then have "distinct (map tab_id (tabs (reorderTabs a b s)))"
    using di(2) by (simp add: distinct_map st)
  moreover have "activeTabId (reorderTabs a b s) = activeTabId s"
    by (simp add: reorderTabs_def Let_def saveTabsToStorage_fields)
  ultimately show ?thesis
    using assms st ln by (simp add: store_ok_def)
qed

lemma length_addNewTab:
  "length (tabs s) \<le> MAX_TABS \<Longrightarrow> length (tabs (addNewTab i now s)) \<le> MAX_TABS"
  by (simp add: addNewTab_def Let_def clearCalculatorForm_fields saveTabsToStorage_fields
        saveCurrentTabState_def length_update_first split: option.splits)

text \<open>
  C1, as the code has it. Take a store whose ids are pairwise distinct and whose
  \<open>activeTabId\<close> is the id of one of its records, and any sequence of \<open>addNewTab\<close>,
  \<open>closeTab\<close> and \<open>reorderTabs\<close> in which every generated id is new to the collection and
  every close names a tab of the collection. Then no operation fails, the ids stay
  pairwise distinct, \<open>activeTabId\<close> stays the id of a record, and a collection of at most 20
  tabs stays within 20.
\<close>

theorem run_ops_keeps_store_ok:
  assumes "store_ok s" and "ops_ok ops s"
  shows "\<exists>s'. run_ops ops s = Inr s' \<and> store_ok s' \<and>
              (length (tabs s) \<le> MAX_TABS \<longrightarrow> length (tabs s') \<le> MAX_TABS)"
  using assms
proof (induction ops arbitrary: s)
  case Nil
  then show ?case by simp
next
  case (Cons op ops)
  have "\<exists>s1. apply_op op s = Inr s1 \<and> store_ok s1 \<and>
             (length (tabs s) \<le> MAX_TABS \<longrightarrow> length (tabs s1) \<le> MAX_TABS)"
  proof (cases op)
    case (Create i now)
    then show ?thesis
      using Cons.prems by (simp add: store_ok_addNewTab length_addNewTab)
  next
    case (Close c i)
    then show ?thesis
      using Cons.prems store_ok_closeTab [of s i c] by auto
  next
    case (Reorder a b)
    then show ?thesis
      using Cons.prems store_ok_reorderTabs [of s a b] by simp
  qed
  then obtain s1 where s1: "apply_op op s = Inr s1" "store_ok s1"
    "length (tabs s) \<le> MAX_TABS \<longrightarrow> length (tabs s1) \<le> MAX_TABS"
    by blast
  have "ops_ok ops s1"
    using Cons.prems(2) s1(1) by simp
  then obtain s' where "run_ops ops s1 = Inr s'" "store_ok s'"
    "length (tabs s1) \<le> MAX_TABS \<longrightarrow> length (tabs s') \<le> MAX_TABS"
    using Cons.IH [OF s1(2)] by blast
  then show ?case
    using s1 by auto
qed

lemma generateTabId_examples:
  "generateTabId 1700000000000 ''k3j9x0abc'' = ''tab_1700000000000_k3j9x0abc''"
  "generateTabId 1700000000500 ''q7w2e5rty'' = ''tab_1700000000500_q7w2e5rty''"
  by (simp_all add: generateTabId_def showInt_def show_eval)

lemma run_ops_single: "run_ops [op] s = apply_op op s"
  by (cases "apply_op op s") simp_all

lemma twoTabs_tabs:
  "tabs twoTabs = [sampleTab ''tab_1700000000000_k3j9x0abc'' ''AAPL'',
                   sampleTab ''tab_1700000000500_q7w2e5rty'' []]"
  "activeTabId twoTabs = Some ''tab_1700000000500_q7w2e5rty''"
  "isLoadingTabState twoTabs = False"
  by (simp_all add: twoTabs_def sampleApp_def generateTabId_examples)

lemma store_ok_threeTabs: "store_ok threeTabs"
  by (simp add: store_ok_def threeTabs_def sample_defs)

theorem run_ops_keeps_store_ok_witness:
  "store_ok threeTabs \<and>
   ops_ok [Create ''d'' 7, Reorder ''a'' ''c'', Close True ''c'', Close True ''d''] threeTabs \<and>
   (\<exists>s'. run_ops [Create ''d'' 7, Reorder ''a'' ''c'', Close True ''c'', Close True ''d''] threeTabs
           = Inr s' \<and> store_ok s')"
proof -
  let ?s1 = "addNewTab ''d'' 7 threeTabs"
  let ?s2 = "reorderTabs ''a'' ''c'' ?s1"
  have t1: "map tab_id (tabs ?s1) = [''a'', ''b'', ''c'', ''d'']"
    by (simp add: addNewTab_def MAX_TABS_def Let_def truthy_str_def threeTabs_def sample_defs
          clearCalculatorForm_fields saveTabsToStorage_fields saveCurrentTabState_ids)
  have ok1: "store_ok ?s1"
    by (rule store_ok_addNewTab [OF store_ok_threeTabs]) (simp add: threeTabs_def sample_defs)
  have ok2: "store_ok ?s2" and l2: "length (tabs ?s2) = length (tabs ?s1)"
    using store_ok_reorderTabs [OF ok1, of "''a''" "''c''"] by simp_all
  have a2: "activeTabId ?s2 = Some ''d''"
    by (simp add: reorderTabs_def Let_def saveTabsToStorage_fields addNewTab_def MAX_TABS_def
          clearCalculatorForm_fields threeTabs_def sampleApp_def)
  have "set (map tab_id (tabs ?s2)) = set (map tab_id (tabs ?s1))"
  proof -
    have "findIndex (\<lambda>t. tab_id t = ''a'') (tabs ?s1) \<noteq> - 1"
      and "findIndex (\<lambda>t. tab_id t = ''c'') (tabs ?s1) \<noteq> - 1"
      using t1 by (auto simp: findIndex_none_iff)
    then obtain i j where ii: "findIndex (\<lambda>t. tab_id t = ''a'') (tabs ?s1) = int i"
      and jj: "findIndex (\<lambda>t. tab_id t = ''c'') (tabs ?s1) = int j"
      by (metis findIndex_nonneg nonneg_int_cases)
    have i: "i < length (tabs ?s1)"
      using findIndex_range [of "\<lambda>t. tab_id t = ''a''" "tabs ?s1"] ii by simp
    define r where "r = take i (tabs ?s1) @ drop (Suc i) (tabs ?s1)"
    have tr: "set (take j r) \<union> set (drop j r) = set r"
      by (simp only: set_append [symmetric] append_take_drop_id)
    have "tabs ?s2 = take j r @ tabs ?s1 ! i # drop j r"
      unfolding r_def by (rule reorderTabs_found [OF ii jj])
    then have "set (tabs ?s2) = (set (take j r) \<union> set (drop j r)) \<union> {tabs ?s1 ! i}"
      by auto
    then have "set (tabs ?s2) = set (take i (tabs ?s1) @ tabs ?s1 ! i # drop (Suc i) (tabs ?s1))"
      by (simp only: tr) (auto simp: r_def)
    then have "set (tabs ?s2) = set (tabs ?s1)"
      by (simp only: id_take_nth_drop [OF i, symmetric])
    then show ?thesis by simp
  qed
  then have m2: "set (map tab_id (tabs ?s2)) = {''a'', ''b'', ''c'', ''d''}"
    by (simp only: t1) auto
  have o1: "op_ok (Create ''d'' 7) threeTabs"
    by (simp add: threeTabs_def sample_defs)
  have o3: "op_ok (Close True ''c'') ?s2"
    by (simp only: op_ok.simps m2) simp
  obtain s3 where s3: "closeTab True ''c'' ?s2 = Inr s3" "store_ok s3"
    using store_ok_closeTab [OF ok2, of "''c''" True] o3 by auto
  have o4: "op_ok (Close True ''d'') s3"
  proof -
    have "length (tabs ?s2) \<noteq> 1"
      using arg_cong [OF t1, of length] l2 by simp
    then have "activeTabId s3 = Some ''d''"
      using s3(1) a2
      by (auto simp: closeTab_def Let_def checkAutoFetchInterval_fields saveTabsToStorage_fields
            split: if_splits)
    then show ?thesis
      using s3(2) by (auto simp: store_ok_def)
  qed
  have ok: "ops_ok [Create ''d'' 7, Reorder ''a'' ''c'', Close True ''c'', Close True ''d''] threeTabs"
    using o1 o3 o4 s3(1) by (simp split: sum.splits)
  show ?thesis
    using run_ops_keeps_store_ok [OF store_ok_threeTabs ok] store_ok_threeTabs ok by blast
qed

text \<open>
  The claim as stated covers every sequence of the three operations. \<open>closeTab\<close> with an id
  that is not in the collection removes the last tab (\<open>findIndex\<close> gives \<open>-1\<close>, and
  \<open>splice(-1, 1)\<close> deletes the last element): here that tab is the active one, and
  \<open>activeTabId\<close> is left naming no record. And \<open>addNewTab\<close> does not compare the generated
  id with the ids in use: with the id of an existing tab the ids are no longer distinct.
\<close>

theorem run_ops_breaks_store_ok_counterexample:
  "store_ok twoTabs \<and>
   \<not> isl (run_ops [Close True ''tab_1699999999999_a1b2c3d4e''] twoTabs) \<and>
   map tab_id (tabs (projr (run_ops [Close True ''tab_1699999999999_a1b2c3d4e''] twoTabs)))
     = [''tab_1700000000000_k3j9x0abc''] \<and>
   activeTabId (projr (run_ops [Close True ''tab_1699999999999_a1b2c3d4e''] twoTabs))
     = Some ''tab_1700000000500_q7w2e5rty'' \<and>
   \<not> store_ok (projr (run_ops [Close True ''tab_1699999999999_a1b2c3d4e''] twoTabs)) \<and>
   \<not> isl (run_ops [Create (generateTabId 1700000000000 ''k3j9x0abc'') 1700000000900] twoTabs) \<and>
   \<not> store_ok (projr (run_ops [Create (generateTabId 1700000000000 ''k3j9x0abc'') 1700000000900]
                          twoTabs))"
proof -
  let ?c = "closeTab True ''tab_1699999999999_a1b2c3d4e'' twoTabs"
  let ?a = "addNewTab ''tab_1700000000000_k3j9x0abc'' 1700000000900 twoTabs"
  have ok: "store_ok twoTabs"
    by (simp add: store_ok_def twoTabs_tabs sampleTab_def newTab_def)
  have c: "\<not> isl ?c \<and> map tab_id (tabs (projr ?c)) = [''tab_1700000000000_k3j9x0abc''] \<and>
           activeTabId (projr ?c) = Some ''tab_1700000000500_q7w2e5rty''"
    by (simp add: closeTab_def Let_def twoTabs_tabs sampleTab_def newTab_def
          splice_delete1_def splice_start_def checkAutoFetchInterval_fields
          saveTabsToStorage_fields)
  then have nc: "\<not> store_ok (projr ?c)"
    by (simp add: store_ok_def)
  have "map tab_id (tabs ?a) = [''tab_1700000000000_k3j9x0abc'', ''tab_1700000000500_q7w2e5rty'',
                                 ''tab_1700000000000_k3j9x0abc'']"
    by (simp add: addNewTab_def MAX_TABS_def Let_def truthy_str_def twoTabs_tabs sampleTab_def
          newTab_def clearCalculatorForm_fields saveTabsToStorage_fields saveCurrentTabState_ids)
  then have na: "\<not> store_ok ?a"
    by (simp add: store_ok_def)
  show ?thesis
    using ok c nc na by (simp add: generateTabId_examples run_ops_single del: run_ops.simps)
qed

section \<open>Switching tabs\<close>

lemma poller_step_inputs:
  "inputs (fetchPriceForActiveTab s) = inputs s"
  "inputs (startAutoFetchInterval s) = inputs s"
  "inputs (stopAutoFetchInterval s) = inputs s"
  "inputs (checkAutoFetchInterval s) = inputs s"
  "isLoadingTabState (fetchPriceForActiveTab s) = isLoadingTabState s"
  "isLoadingTabState (startAutoFetchInterval s) = isLoadingTabState s"
  "isLoadingTabState (stopAutoFetchInterval s) = isLoadingTabState s"
  "isLoadingTabState (checkAutoFetchInterval s) = isLoadingTabState s"
proof -
  show f: "inputs (fetchPriceForActiveTab s) = inputs s" for s
    by (simp add: fetchPriceForActiveTab_def Let_def split: option.splits)
  show g: "isLoadingTabState (fetchPriceForActiveTab s) = isLoadingTabState s" for s
    by (simp add: fetchPriceForActiveTab_def Let_def split: option.splits)
  show a: "inputs (startAutoFetchInterval s) = inputs s" for s
    by (simp add: startAutoFetchInterval_def Let_def setTimer_def clearTimer_fields f
          split: prod.splits)
  show b: "inputs (stopAutoFetchInterval s) = inputs s" for s
    by (simp add: stopAutoFetchInterval_def clearTimer_fields)
  show c: "isLoadingTabState (startAutoFetchInterval s) = isLoadingTabState s" for s
    by (simp add: startAutoFetchInterval_def Let_def setTimer_def clearTimer_fields g
          split: prod.splits)
  show d: "isLoadingTabState (stopAutoFetchInterval s) = isLoadingTabState s" for s
    by (simp add: stopAutoFetchInterval_def clearTimer_fields)
  show "inputs (checkAutoFetchInterval s) = inputs s"
    by (simp add: checkAutoFetchInterval_def a b)
  show "isLoadingTabState (checkAutoFetchInterval s) = isLoadingTabState s"
    by (simp add: checkAutoFetchInterval_def c d)
qed

text \<open>Switching to the tab that is active already does nothing.\<close>

lemma switchTab_active_noop: "activeTabId s = Some i \<Longrightarrow> switchTab i s = s"
  by (simp add: switchTab_def)

text \<open>
  Switching to another tab of the collection: the form is saved into the record that was
  active (by \<open>saveCurrentTabState\<close>, so not while a load is in progress), the pointer is set
  and persisted, the target's fields are put into the form under the loading flag, and the
  poller is re-evaluated last.
\<close>

lemma switchTab_existing:
  assumes "activeTabId s \<noteq> Some i"
    and "s1 = (if truthy_str (activeTabId s) then saveCurrentTabState s else s)"
    and "find (\<lambda>t. tab_id t = i) (tabs s1) = Some t"
  shows "switchTab i s =
           checkAutoFetchInterval (loadTabState i
             (s1\<lparr> activeTabId := Some i,
                  localStorage := (localStorage s1)\<lparr> stored_activeTabId := Some i \<rparr> \<rparr>))"
    and "tabs (switchTab i s) = tabs s1"
    and "activeTabId (switchTab i s) = Some i"
    and "stored_activeTabId (localStorage (switchTab i s)) = Some i"
    and "isLoadingTabState (switchTab i s)"
    and "inputs (switchTab i s) =
           \<lparr> in_stockSymbol = stockSymbol t, in_entryPrice = entryPrice t,
             in_targetPrice = targetPrice t, in_quantity = quantity t,
             in_tpPercent = tpPercent t, in_slPercent = slPercent t \<rparr>"
  using assms
  by (simp_all add: switchTab_def Let_def checkAutoFetchInterval_fields loadTabState_fields
        poller_step_inputs loadTabState_def setTimer_def)

text \<open>
  C2 asks that \<open>switchTab\<close> with an id that is not in the collection leaves the store
  unchanged. It does not: the pointer is set to the missing id and persisted before
  \<open>loadTabState\<close> looks the tab up and returns. On three tabs \<open>a\<close>, \<open>b\<close>, \<open>c\<close> with \<open>c\<close>
  active, \<open>switchTab\<close> with the id \<open>ghost\<close> leaves \<open>activeTabId\<close> and its persisted copy at
  \<open>ghost\<close>, which names no record.
\<close>

theorem switchTab_missing_id_sets_pointer:
  "store_ok threeTabs \<and>
   ''ghost'' \<notin> set (map tab_id (tabs threeTabs)) \<and>
   map tab_id (tabs (switchTab ''ghost'' threeTabs)) = [''a'', ''b'', ''c''] \<and>
   activeTabId (switchTab ''ghost'' threeTabs) = Some ''ghost'' \<and>
   stored_activeTabId (localStorage (switchTab ''ghost'' threeTabs)) = Some ''ghost'' \<and>
   switchTab ''ghost'' threeTabs \<noteq> threeTabs \<and>
   \<not> store_ok (switchTab ''ghost'' threeTabs)"
proof -
  have t: "map tab_id (tabs (switchTab ''ghost'' threeTabs)) = [''a'', ''b'', ''c'']"
    by (simp add: switchTab_def Let_def truthy_str_def checkAutoFetchInterval_fields
          loadTabState_fields saveCurrentTabState_ids threeTabs_def sample_defs)
  have a: "activeTabId (switchTab ''ghost'' threeTabs) = Some ''ghost''"
    by (simp add: switchTab_def Let_def checkAutoFetchInterval_fields loadTabState_fields
          threeTabs_def sampleApp_def)
  have p: "stored_activeTabId (localStorage (switchTab ''ghost'' threeTabs)) = Some ''ghost''"
    by (simp add: switchTab_def Let_def checkAutoFetchInterval_fields loadTabState_fields
          threeTabs_def sampleApp_def)
  have c: "activeTabId threeTabs = Some ''c''"
    by (simp add: threeTabs_def sampleApp_def)
  have n: "switchTab ''ghost'' threeTabs \<noteq> threeTabs"
  proof
    assume "switchTab ''ghost'' threeTabs = threeTabs"
    then have "activeTabId (switchTab ''ghost'' threeTabs) = activeTabId threeTabs"
      by simp
    then show False
      by (simp only: a c) simp
  qed
  have "\<not> store_ok (switchTab ''ghost'' threeTabs)"
    by (simp add: store_ok_def t a)
  moreover have "''ghost'' \<notin> set (map tab_id (tabs threeTabs))"
    by (simp add: threeTabs_def sample_defs)
  ultimately show ?thesis
    using t a p n store_ok_threeTabs by blast
qed

section \<open>The poller stays consistent under the other operations\<close>

lemma poller_ok_sampleApp: "poller_ok (sampleApp ts a)"
  by (simp add: poller_ok_def liveIntervals_def sampleApp_def)

lemma poller_ok_fetchPriceForActiveTab: "poller_ok s \<Longrightarrow> poller_ok (fetchPriceForActiveTab s)"
proof -
  assume ok: "poller_ok s"
  show ?thesis
    by (rule poller_ok_timers_only [OF ok]) (simp_all add: fetchPriceForActiveTab_fields)
qed

lemma poller_ok_addNewTab: "poller_ok s \<Longrightarrow> poller_ok (addNewTab i now s)"
proof -
  assume ok: "poller_ok s"
  define s1 where "s1 = (if truthy_str (activeTabId s) then saveCurrentTabState s else s)"
  have ok1: "poller_ok s1"
    using ok by (simp add: s1_def poller_ok_saveCurrentTabState)
  have a: "poller_ok (s\<lparr> alerts := y \<rparr>)" for y
    by (rule poller_ok_timers_only [OF ok]) simp_all
  have "poller_ok (clearCalculatorForm (saveTabsToStorage
          (s1\<lparr> tabs := tabs s1 @ [newTab i now], activeTabId := Some i \<rparr>)))"
    by (rule poller_ok_timers_only [OF ok1])
      (simp_all add: clearCalculatorForm_def saveTabsToStorage_def)
  then show ?thesis
    using a by (simp add: addNewTab_def Let_def s1_def [symmetric])
qed

lemma poller_ok_reorderTabs: "poller_ok s \<Longrightarrow> poller_ok (reorderTabs a b s)"
proof -
  assume ok: "poller_ok s"
  show ?thesis
    by (rule poller_ok_timers_only [OF ok]) (simp_all add: reorderTabs_def Let_def saveTabsToStorage_def)
qed

lemma poller_ok_debouncedSaveTabState: "poller_ok s \<Longrightarrow> poller_ok (debouncedSaveTabState s)"
proof -
  assume ok: "poller_ok s"
  define s1 where
    "s1 = (if truthy_id (saveDebounceTimer s) then clearTimer (the (saveDebounceTimer s)) s else s)"
  have ok1: "poller_ok s1"
    using ok by (simp add: s1_def poller_ok_clearTimer_other)
  have ok2: "poller_ok (snd (setTimer SaveTabStateLater s1))"
    using ok1 by (rule poller_ok_setTimer_other) simp
  have "poller_ok ((snd (setTimer SaveTabStateLater s1))\<lparr> saveDebounceTimer := Some h \<rparr>)" for h
    by (rule poller_ok_timers_only [OF ok2]) simp_all
  then show ?thesis
    using ok by (simp add: debouncedSaveTabState_def Let_def s1_def [symmetric] case_prod_beta)
qed

lemma poller_ok_fireTimer: "poller_ok s \<Longrightarrow> poller_ok (fireTimer h s)"
proof -
  assume ok: "poller_ok s"
  have c: "poller_ok (clearTimer h s)"
    using ok by (rule poller_ok_clearTimer_other)
  have "poller_ok ((clearTimer h s)\<lparr> isLoadingTabState := False \<rparr>)"
    by (rule poller_ok_timers_only [OF c]) simp_all
  then show ?thesis
    using ok c
    by (simp add: fireTimer_def poller_ok_saveCurrentTabState poller_ok_fetchPriceForActiveTab
          split: option.splits timer_task.splits)
qed

section \<open>The events that re-evaluate the poller\<close>

lemma debouncedSaveTabState_fields:
  "tabs (debouncedSaveTabState s) = tabs s"
  "activeTabId (debouncedSaveTabState s) = activeTabId s"
  "localStorage (debouncedSaveTabState s) = localStorage s"
  "autoFetchIntervalId (debouncedSaveTabState s) = autoFetchIntervalId s"
  "fetchLog (debouncedSaveTabState s) = fetchLog s"
  "inputs (debouncedSaveTabState s) = inputs s"
  "autoPriceEnabled (debouncedSaveTabState s) = autoPriceEnabled s"
  by (simp_all add: debouncedSaveTabState_def Let_def setTimer_def clearTimer_fields
        case_prod_beta)

lemma fetchStockPrice_fields:
  "tabs (fetchStockPrice e now y s) = tabs s"
  "activeTabId (fetchStockPrice e now y s) = activeTabId s"
  "autoFetchIntervalId (fetchStockPrice e now y s) = autoFetchIntervalId s"
  "autoPriceEnabled (fetchStockPrice e now y s) = autoPriceEnabled s"
  by (simp_all add: fetchStockPrice_def Let_def entryPriceInput_def debouncedSaveTabState_fields
        case_prod_beta split: option.splits)

lemma poller_ok_fetchStockPrice: "poller_ok s \<Longrightarrow> poller_ok (fetchStockPrice e now y s)"
proof -
  assume ok: "poller_ok s"
  have a: "poller_ok (s\<lparr> localStorage := st \<rparr>)" for st
    by (rule poller_ok_timers_only [OF ok]) simp_all
  have b: "poller_ok (x\<lparr> inputs := i \<rparr>)" if "poller_ok x" for x :: app and i
    by (rule poller_ok_timers_only [OF that]) simp_all
  have c: "poller_ok (x\<lparr> fetchLog := l \<rparr>)" if "poller_ok x" for x :: app and l
    by (rule poller_ok_timers_only [OF that]) simp_all
  show ?thesis
    using ok
    by (simp add: fetchStockPrice_def Let_def entryPriceInput_def case_prod_beta a b c
          poller_ok_debouncedSaveTabState split: option.splits)
qed

text \<open>
  After the step the poller runs exactly when the active record wants polling, and the
  step leaves the records alone.
\<close>

lemma checkAutoFetchInterval_syncs:
  assumes "poller_ok s"
  shows "truthy_id (autoFetchIntervalId (checkAutoFetchInterval s)) = hasAutoPrice s"
    and "hasAutoPrice (checkAutoFetchInterval s) = hasAutoPrice s"
proof -
  show "hasAutoPrice (checkAutoFetchInterval s) = hasAutoPrice s"
    by (rule hasAutoPrice_cong) (simp_all add: checkAutoFetchInterval_fields)
  show "truthy_id (autoFetchIntervalId (checkAutoFetchInterval s)) = hasAutoPrice s"
    using start_when_wanted [OF assms] stop_when_running [OF assms]
    by (auto simp: checkAutoFetchInterval_def truthy_id_def)
qed

text \<open>
  A tab switch, a tab close that goes through and a toggle of auto-price all end with the
  step, run on the records as the event has just left them.
\<close>

lemma switchTab_runs_step:
  assumes "activeTabId s \<noteq> Some i"
  shows "switchTab i s =
           checkAutoFetchInterval (loadTabState i
             ((if truthy_str (activeTabId s) then saveCurrentTabState s else s)
                \<lparr> activeTabId := Some i,
                  localStorage := (localStorage (if truthy_str (activeTabId s)
                                                 then saveCurrentTabState s else s))
                                    \<lparr> stored_activeTabId := Some i \<rparr> \<rparr>))"
  using assms by (simp add: switchTab_def Let_def)

lemma closeTab_runs_step:
  assumes "closeTab c i s = Inr s'" and "length (tabs s) \<noteq> 1"
    and "c \<or> (\<forall>t. find (\<lambda>t. tab_id t = i) (tabs s) = Some t \<longrightarrow> stockSymbol t = [])"
  shows "\<exists>p. s' = checkAutoFetchInterval p \<and>
             tabs p = splice_delete1 (tabs s) (findIndex (\<lambda>t. tab_id t = i) (tabs s)) \<and>
             (poller_ok s \<longrightarrow> poller_ok p)"
proof -
  have b: "poller_ok (x\<lparr> localStorage := y \<rparr>)" if "poller_ok x" for x :: app and y
    by (rule poller_ok_timers_only [OF that]) simp_all
  have t: "poller_ok (x\<lparr> tabs := y \<rparr>)" if "poller_ok x" for x :: app and y
    by (rule poller_ok_timers_only [OF that]) simp_all
  have p: "poller_ok (x\<lparr> activeTabId := y, localStorage := z \<rparr>)" if "poller_ok x"
    for x :: app and y z
    by (rule poller_ok_timers_only [OF that]) simp_all
  show ?thesis
    using assms
    by (auto simp: closeTab_def Let_def saveTabsToStorage_fields loadTabState_fields b t p
          poller_ok_saveTabsToStorage poller_ok_loadTabState
          split: if_splits option.splits)
qed

lemma toggleAutoPrice_runs_step:
  "toggleAutoPrice e now s =
     checkAutoFetchInterval
       (let s2 = (if \<not> autoPriceEnabled s \<and> trim (in_stockSymbol (inputs s)) \<noteq> []
                  then fetchStockPrice e now (trim (in_stockSymbol (inputs s)))
                         (s\<lparr> autoPriceEnabled := True \<rparr>)
                  else s\<lparr> autoPriceEnabled := \<not> autoPriceEnabled s \<rparr>)
        in if truthy_str (activeTabId s2) then saveCurrentTabState s2 else s2)"
  by (simp add: toggleAutoPrice_def Let_def)

lemma stockSymbolInput_runs_step:
  assumes "truthy_str (activeTabId s)"
  shows "stockSymbolInput v s =
           checkAutoFetchInterval
             (debouncedSaveTabState (s\<lparr> inputs := (inputs s)\<lparr> in_stockSymbol := v \<rparr> \<rparr>))"
    and "tabs (stockSymbolInput v s) = tabs s"
  using assms
  by (simp_all add: stockSymbolInput_def Let_def checkAutoFetchInterval_fields
        debouncedSaveTabState_fields)

lemma poller_ok_toggleAutoPrice: "poller_ok s \<Longrightarrow> poller_ok (toggleAutoPrice e now s)"
proof -
  assume ok: "poller_ok s"
  have a: "poller_ok (s\<lparr> autoPriceEnabled := b \<rparr>)" for b
    by (rule poller_ok_timers_only [OF ok]) simp_all
  show ?thesis
    by (simp add: toggleAutoPrice_def Let_def poller_ok_check poller_ok_saveCurrentTabState
          poller_ok_fetchStockPrice a)
qed

lemma poller_ok_stockSymbolInput: "poller_ok s \<Longrightarrow> poller_ok (stockSymbolInput v s)"
proof -
  assume ok: "poller_ok s"
  have a: "poller_ok (s\<lparr> inputs := b \<rparr>)" for b
    by (rule poller_ok_timers_only [OF ok]) simp_all
  show ?thesis
    by (simp add: stockSymbolInput_def Let_def poller_ok_check poller_ok_debouncedSaveTabState a)
qed

text \<open>
  So after a tab switch and after a toggle of auto-price the poller runs exactly when the
  record that is then active wants polling.
\<close>

lemma switchTab_syncs:
  assumes "poller_ok s" and "activeTabId s \<noteq> Some i"
  shows "truthy_id (autoFetchIntervalId (switchTab i s)) = hasAutoPrice (switchTab i s)"
proof -
  define p where "p = loadTabState i
             ((if truthy_str (activeTabId s) then saveCurrentTabState s else s)
                \<lparr> activeTabId := Some i,
                  localStorage := (localStorage (if truthy_str (activeTabId s)
                                                 then saveCurrentTabState s else s))
                                    \<lparr> stored_activeTabId := Some i \<rparr> \<rparr>)"
  have e: "switchTab i s = checkAutoFetchInterval p"
    unfolding p_def using assms(2) by (rule switchTab_runs_step)
  have ok: "poller_ok p"
  proof -
    have 1: "poller_ok (if truthy_str (activeTabId s) then saveCurrentTabState s else s)"
      using assms(1) by (simp add: poller_ok_saveCurrentTabState)
    have "poller_ok ((if truthy_str (activeTabId s) then saveCurrentTabState s else s)
                \<lparr> activeTabId := Some i,
                  localStorage := (localStorage (if truthy_str (activeTabId s)
                                                 then saveCurrentTabState s else s))
                                    \<lparr> stored_activeTabId := Some i \<rparr> \<rparr>)"
      by (rule poller_ok_timers_only [OF 1]) simp_all
    then show ?thesis
      unfolding p_def by (rule poller_ok_loadTabState)
  qed
  show ?thesis
    using checkAutoFetchInterval_syncs [OF ok] by (simp add: e)
qed

lemma toggleAutoPrice_syncs:
  assumes "poller_ok s"
  shows "truthy_id (autoFetchIntervalId (toggleAutoPrice e now s)) = hasAutoPrice (toggleAutoPrice e now s)"
proof -
  define p where "p = (let s2 = (if \<not> autoPriceEnabled s \<and> trim (in_stockSymbol (inputs s)) \<noteq> []
                  then fetchStockPrice e now (trim (in_stockSymbol (inputs s)))
                         (s\<lparr> autoPriceEnabled := True \<rparr>)
                  else s\<lparr> autoPriceEnabled := \<not> autoPriceEnabled s \<rparr>)
        in if truthy_str (activeTabId s2) then saveCurrentTabState s2 else s2)"
  have e: "toggleAutoPrice e now s = checkAutoFetchInterval p"
    unfolding p_def by (rule toggleAutoPrice_runs_step)
  have a: "poller_ok (s\<lparr> autoPriceEnabled := b \<rparr>)" for b
    by (rule poller_ok_timers_only [OF assms]) simp_all
  have ok: "poller_ok p"
    by (simp add: p_def Let_def a poller_ok_fetchStockPrice poller_ok_saveCurrentTabState)
  show ?thesis
    using checkAutoFetchInterval_syncs [OF ok] by (simp add: e)
qed

lemma closeTab_syncs:
  assumes "poller_ok s" and "closeTab c i s = Inr s'" and "length (tabs s) \<noteq> 1"
    and "c \<or> (\<forall>t. find (\<lambda>t. tab_id t = i) (tabs s) = Some t \<longrightarrow> stockSymbol t = [])"
  shows "truthy_id (autoFetchIntervalId s') = hasAutoPrice s'"
proof -
  obtain p where "s' = checkAutoFetchInterval p" and "poller_ok p"
    using closeTab_runs_step [OF assms(2,3,4)] assms(1) by blast
  then show ?thesis
    using checkAutoFetchInterval_syncs [of p] by simp
qed

lemma trim_aapl: "trim ''AAPL'' = ''AAPL''"
  by (simp add: trim_def is_space_def)

lemma toUpperCase_AAPL: "toUpperCase ''AAPL'' = ''AAPL''"
  by (simp add: toUpperCase_def upper_char_def)

lemma symbolEditExample_typed:
  "stockSymbolInput ''AAPL'' symbolEditExample =
     symbolEditExample
       \<lparr> inputs := defaultForm\<lparr> in_stockSymbol := ''AAPL'' \<rparr>,
         saveDebounceTimer := Some 1, timers := [(1, SaveTabStateLater)], lastTimerId := 1 \<rparr>"
  by (simp add: stockSymbolInput_def Let_def truthy_str_def symbolEditExample_def sample_defs
        debouncedSaveTabState_def truthy_id_def setTimer_def checkAutoFetchInterval_def
        hasAutoPrice_def is_active_def)

text \<open>
  The state of the example is the one a toggle of auto-price leaves on a fresh tab with an
  empty symbol field.
\<close>

lemma symbolEditExample_reached:
  "tabs (toggleAutoPrice e 0 (sampleApp [sampleTab ''a'' '''', sampleTab ''b'' ''''] ''a''))
     = tabs symbolEditExample"
  "activeTabId (toggleAutoPrice e 0 (sampleApp [sampleTab ''a'' '''', sampleTab ''b'' ''''] ''a''))
     = activeTabId symbolEditExample"
  "autoPriceEnabled (toggleAutoPrice e 0 (sampleApp [sampleTab ''a'' '''', sampleTab ''b'' ''''] ''a''))
     = autoPriceEnabled symbolEditExample"
  "inputs (toggleAutoPrice e 0 (sampleApp [sampleTab ''a'' '''', sampleTab ''b'' ''''] ''a''))
     = inputs symbolEditExample"
  "timers (toggleAutoPrice e 0 (sampleApp [sampleTab ''a'' '''', sampleTab ''b'' ''''] ''a''))
     = timers symbolEditExample"
  "autoFetchIntervalId (toggleAutoPrice e 0 (sampleApp [sampleTab ''a'' '''', sampleTab ''b'' ''''] ''a''))
     = autoFetchIntervalId symbolEditExample"
  "isLoadingTabState (toggleAutoPrice e 0 (sampleApp [sampleTab ''a'' '''', sampleTab ''b'' ''''] ''a''))
     = isLoadingTabState symbolEditExample"
  by (simp_all add: toggleAutoPrice_def Let_def truthy_str_def saveCurrentTabState_def
        saveTabsToStorage_def is_active_def hasAutoPrice_def checkAutoFetchInterval_def
        truthy_id_def trim_def is_space_def symbolEditExample_def sample_defs)

text \<open>
  The symbol field has a second listener, which half a second after the last key stroke
  calls \<open>fetchStockPrice\<close> for the text typed. That call fills the price field; it neither
  sets nor clears a poll interval.
\<close>

lemma fetchStockPrice_keeps_poller:
  "autoFetchIntervalId (fetchStockPrice e now y s) = autoFetchIntervalId s"
  "set (liveIntervals (fetchStockPrice e now y s)) \<subseteq> set (liveIntervals s)"
proof -
  show "autoFetchIntervalId (fetchStockPrice e now y s) = autoFetchIntervalId s"
    by (rule fetchStockPrice_fields)
  have d: "set (liveIntervals (debouncedSaveTabState x)) \<subseteq> set (liveIntervals x)" for x
    by (auto simp: debouncedSaveTabState_def Let_def liveIntervals_def setTimer_def
          clearTimer_def case_prod_beta split: option.splits)
  have i: "liveIntervals (x\<lparr> inputs := v \<rparr>) = liveIntervals x" for x :: app and v
    by (simp add: liveIntervals_def)
  have l: "liveIntervals (x\<lparr> localStorage := v \<rparr>) = liveIntervals x" for x :: app and v
    by (simp add: liveIntervals_def)
  have f: "liveIntervals (x\<lparr> fetchLog := v \<rparr>) = liveIntervals x" for x :: app and v
    by (simp add: liveIntervals_def)
  have di: "set (liveIntervals (debouncedSaveTabState (x\<lparr> localStorage := u, inputs := v \<rparr>)))
              \<subseteq> set (liveIntervals x)" for x :: app and u v
    using d [of "x\<lparr> localStorage := u, inputs := v \<rparr>"] by (simp add: liveIntervals_def)
  show "set (liveIntervals (fetchStockPrice e now y s)) \<subseteq> set (liveIntervals s)"
    by (simp add: fetchStockPrice_def Let_def entryPriceInput_def case_prod_beta di i l f
          split: option.splits)
qed

text \<open>
  \<open>toggleAutoPrice\<close> saves the form at once and only then runs the step: with \<open>AAPL\<close> in the
  symbol field, switching auto-price on starts the poller in the same event.
\<close>

lemma toggleAutoPrice_starts_poller_example:
  "hasAutoPrice (toggleAutoPrice e 0
     (threeTabs\<lparr> inputs := defaultForm\<lparr> in_stockSymbol := ''AAPL'' \<rparr> \<rparr>)) \<and>
   truthy_id (autoFetchIntervalId (toggleAutoPrice e 0
     (threeTabs\<lparr> inputs := defaultForm\<lparr> in_stockSymbol := ''AAPL'' \<rparr> \<rparr>)))"
proof -
  let ?s = "threeTabs\<lparr> inputs := defaultForm\<lparr> in_stockSymbol := ''AAPL'' \<rparr> \<rparr>"
  have ok: "poller_ok ?s"
    by (simp add: threeTabs_def poller_ok_def liveIntervals_def sampleApp_def)
  have "hasAutoPrice (toggleAutoPrice e 0 ?s)"
    by (simp add: toggleAutoPrice_def Let_def fetchStockPrice_def getCachedPrice_def
          trim_aapl toUpperCase_AAPL truthy_str_def saveCurrentTabState_def
          saveTabsToStorage_def is_active_def hasAutoPrice_def checkAutoFetchInterval_fields
          threeTabs_def sample_defs)
  then show ?thesis
    using toggleAutoPrice_syncs [OF ok, of e 0] by simp
qed

lemma poller_ok_symbolEditExample: "poller_ok symbolEditExample"
  by (simp add: symbolEditExample_def poller_ok_def liveIntervals_def sampleApp_def)

text \<open>
  C4. The claim: after every poller-relevant event, a symbol edit among them, the poller
  is started with an immediate fetch when the active record has auto-price and a symbol
  and the poller is idle. The input listener of the symbol field does call
  \<open>checkAutoFetchInterval\<close>, but right after \<open>debouncedSaveTabState\<close>, which has only
  scheduled the save: the step reads the record before the symbol is written. In
  \<open>symbolEditExample\<close> the active tab has auto-price and no symbol, no timer is pending
  and the poller is idle. Typing \<open>AAPL\<close> leaves one pending timer, the debounced save, and the
  records as they were. When that timer fires, the active record has auto-price and the
  symbol \<open>AAPL\<close>, yet \<open>autoFetchIntervalId\<close> is empty, no timer and no poll interval is
  live and no request has been sent. Run on that state, the step would start interval 2 and
  request \<open>AAPL\<close>.
\<close>

theorem stockSymbolInput_leaves_poller_idle:
  "timers symbolEditExample = [] \<and>
   \<not> hasAutoPrice symbolEditExample \<and>
   autoFetchIntervalId symbolEditExample = None \<and>
   timers (stockSymbolInput ''AAPL'' symbolEditExample) = [(1, SaveTabStateLater)] \<and>
   map stockSymbol (tabs (stockSymbolInput ''AAPL'' symbolEditExample)) = ['''', ''''] \<and>
   map stockSymbol (tabs (fireTimer 1 (stockSymbolInput ''AAPL'' symbolEditExample)))
     = [''AAPL'', ''''] \<and>
   hasAutoPrice (fireTimer 1 (stockSymbolInput ''AAPL'' symbolEditExample)) \<and>
   autoFetchIntervalId (fireTimer 1 (stockSymbolInput ''AAPL'' symbolEditExample)) = None \<and>
   timers (fireTimer 1 (stockSymbolInput ''AAPL'' symbolEditExample)) = [] \<and>
   liveIntervals (fireTimer 1 (stockSymbolInput ''AAPL'' symbolEditExample)) = [] \<and>
   fetchLog (fireTimer 1 (stockSymbolInput ''AAPL'' symbolEditExample)) = [] \<and>
   liveIntervals (checkAutoFetchInterval
     (fireTimer 1 (stockSymbolInput ''AAPL'' symbolEditExample))) = [2] \<and>
   fetchLog (checkAutoFetchInterval
     (fireTimer 1 (stockSymbolInput ''AAPL'' symbolEditExample))) = [''AAPL'']"
proof -
  define s1 where "s1 = stockSymbolInput ''AAPL'' symbolEditExample"
  define s2 where "s2 = fireTimer 1 s1"
  have ok: "timers symbolEditExample = []"
    by (simp add: symbolEditExample_def sampleApp_def)
  have h0: "\<not> hasAutoPrice symbolEditExample" "autoFetchIntervalId symbolEditExample = None"
    by (simp_all add: hasAutoPrice_def is_active_def symbolEditExample_def sample_defs)
  have t1: "timers s1 = [(1, SaveTabStateLater)]"
    and y1: "map stockSymbol (tabs s1) = [[], []]"
    unfolding s1_def
    by (simp_all only: symbolEditExample_typed) (simp_all add: symbolEditExample_def sample_defs)
  have y2: "map stockSymbol (tabs s2) = [''AAPL'', []]"
    and a2: "map tab_autoPriceEnabled (tabs s2) = [True, False]"
    and i2: "map tab_id (tabs s2) = [''a'', ''b'']"
    unfolding s2_def s1_def
    by (simp_all only: symbolEditExample_typed)
      (simp_all add: fireTimer_def clearTimer_def saveCurrentTabState_def saveTabsToStorage_def
        is_active_def trim_aapl symbolEditExample_def sample_defs)
  have f2: "autoFetchIntervalId s2 = None" "timers s2 = []" "fetchLog s2 = []"
    "lastTimerId s2 = 1" "activeTabId s2 = Some ''a''"
    unfolding s2_def s1_def
    by (simp_all only: symbolEditExample_typed)
      (simp_all add: fireTimer_def clearTimer_def saveCurrentTabState_fields
        symbolEditExample_def sampleApp_def)
  have l2: "liveIntervals s2 = []"
    by (simp add: liveIntervals_def f2)
  have fa: "find (is_active s2) (tabs s2) = Some (hd (tabs s2))"
    using i2 by (cases "tabs s2") (simp_all add: is_active_def f2)
  have hd2: "stockSymbol (hd (tabs s2)) = ''AAPL''" "tab_autoPriceEnabled (hd (tabs s2))"
    using y2 a2 by (cases "tabs s2"; simp)+
  have h2: "hasAutoPrice s2"
    by (simp add: hasAutoPrice_def fa hd2)
  have ok2: "poller_ok s2"
    by (simp add: poller_ok_def l2 f2)
  have "liveIntervals (checkAutoFetchInterval s2) = [2] \<and>
        fetchLog (checkAutoFetchInterval s2) = fetchLog (fetchPriceForActiveTab s2)"
    using start_when_wanted [OF ok2 h2] h2 f2
    by (simp add: checkAutoFetchInterval_def truthy_id_def)
  moreover have "fetchLog (fetchPriceForActiveTab s2) = [''AAPL'']"
    by (simp add: fetchPriceForActiveTab_def fa hd2 f2 Let_def trim_aapl toUpperCase_AAPL)
  ultimately have "timers symbolEditExample = [] \<and>
   \<not> hasAutoPrice symbolEditExample \<and>
   autoFetchIntervalId symbolEditExample = None \<and>
   timers s1 = [(1, SaveTabStateLater)] \<and>
   map stockSymbol (tabs s1) = [[], []] \<and>
   map stockSymbol (tabs s2) = [''AAPL'', []] \<and>
   hasAutoPrice s2 \<and>
   autoFetchIntervalId s2 = None \<and>
   timers s2 = [] \<and>
   liveIntervals s2 = [] \<and>
   fetchLog s2 = [] \<and>
   liveIntervals (checkAutoFetchInterval s2) = [2] \<and>
   fetchLog (checkAutoFetchInterval s2) = [''AAPL'']"
    using ok h0 t1 y1 y2 h2 f2 l2 by simp
  then show ?thesis
    unfolding s2_def s1_def .
qed

end
